theory Spec2Isabelle
  imports Complex_Main
begin

section \<open>Numeric and storage conventions\<close>

text \<open>
  The numeric arrays of the program hold 64-bit floats. They are modelled over the reals:
  a two-dimensional array is a list of rows, a one-dimensional array a list. Where the
  program can leave the finite numbers without raising (a quotient with divisor zero, the
  mean of an empty array) the result is a value of \<open>npfloat\<close>, so that such an outcome is
  visible in the model instead of being an arbitrary real. Rounding, overflow and
  underflow of the floats are not modelled.

  The arrays are taken to have the shapes that the program gives them: the rows of a
  batch have equal length, a vector of labels has one entry per sample, and so on. A
  mismatch of shapes, on which the array library raises, is not a case of the model;
  each theorem states the shapes it relies on.
\<close>

text \<open>
  The ways a call can fail to deliver a result. The first five are exceptions that
  propagate to the caller (\<open>GeneratorError\<close> stands for whatever the external generator
  of synthetic samples raises). \<open>NonFinite\<close> is not an exception: the program goes on with
  an infinity or a NaN in its arrays, where the real numbers of this model cannot follow,
  and the model stops there.
\<close>

datatype failure =
  IndexError | KeyError | ValueError | ZeroDivisionError | GeneratorError | NonFinite

datatype npfloat = Finite real | PosInf | NegInf | NaN

definition np_divide :: "real \<Rightarrow> real \<Rightarrow> npfloat" where
  "np_divide a b =
     (if b \<noteq> 0 then Finite (a / b)
      else if a = 0 then NaN
      else if 0 < a then PosInf else NegInf)"

definition np_mean :: "real list \<Rightarrow> npfloat" where
  "np_mean xs = (if xs = [] then NaN else Finite (sum_list xs / real (length xs)))"

text \<open>The comparison \<open>a < b\<close> of two floats; every comparison with NaN is false.\<close>

fun np_less :: "npfloat \<Rightarrow> npfloat \<Rightarrow> bool" where
  "np_less NaN _ = False"
| "np_less _ NaN = False"
| "np_less (Finite a) (Finite b) = (a < b)"
| "np_less (Finite a) PosInf = True"
| "np_less (Finite a) NegInf = False"
| "np_less PosInf _ = False"
| "np_less NegInf NegInf = False"
| "np_less NegInf _ = True"

text \<open>The mean of a non-empty array, as a real.\<close>

definition mean :: "real list \<Rightarrow> real" where
  "mean xs = sum_list xs / real (length xs)"

definition column :: "real list list \<Rightarrow> nat \<Rightarrow> real list" where
  "column a j = map (\<lambda>row. row ! j) a"

definition set_column :: "real list list \<Rightarrow> nat \<Rightarrow> real list \<Rightarrow> real list list" where
  "set_column a j v = map (\<lambda>(row, x). row[j := x]) (zip a v)"

definition dot :: "real list \<Rightarrow> real list \<Rightarrow> real" where
  "dot u v = sum_list (map2 (*) u v)"

text \<open>
  The membership arrays are objects that the training step updates in place and that the
  parameter dictionary refers to. They live in a store of arrays, addressed by object
  identity; a dictionary entry holds the address.
\<close>

type_synonym addr = nat

record heap =
  next_free :: addr
  arrays :: "addr \<Rightarrow> real list"

definition alloc :: "heap \<Rightarrow> real list \<Rightarrow> heap \<times> addr" where
  "alloc h v =
     (h\<lparr>next_free := Suc (next_free h), arrays := (arrays h)(next_free h := v)\<rparr>, next_free h)"

section \<open>The fuzzy model (anfis\_trainer.py)\<close>

text \<open>
  \<open>training_history\<close> keeps the two loss series. The two accuracy series are produced by
  an external metrics library and are read by none of the operations modelled here; they
  are left out.
  \<open>membership_params\<close> is the dictionary with the keys \<open>input_i_centers\<close> and
  \<open>input_i_widths\<close>: entry \<open>i\<close> of the list holds the addresses of these two arrays.
  \<open>rule_consequents\<close> is held by value: the snapshot of the best weights takes it with
  the array's own \<open>copy\<close>, which duplicates the data. (Once \<open>train\<close> has put the best
  weights back, the model and its snapshot hold one and the same array of consequents;
  a second call of \<open>train\<close> on the same model is therefore not covered.)
\<close>

record history =
  loss :: "real list"
  val_loss :: "npfloat list"

record ANFISModel =
  n_inputs :: nat
  n_rules :: nat
  n_membership_functions :: nat
  membership_params :: "(addr \<times> addr) list"
  rule_consequents :: "real list list"
  training_history :: history
  best_weights :: "((addr \<times> addr) list \<times> real list list) option"
  best_val_loss :: npfloat
  patience_counter :: nat

definition linspace :: "real \<Rightarrow> real \<Rightarrow> nat \<Rightarrow> real list" where
  "linspace start stop num =
     (if num = 1 then [start]
      else map (\<lambda>k. start + real k * ((stop - start) / real (num - 1))) [0..<num])"

primrec initialize_membership_functions ::
  "nat \<Rightarrow> nat \<Rightarrow> heap \<Rightarrow> heap \<times> (addr \<times> addr) list" where
  "initialize_membership_functions n_mf 0 h = (h, [])"
| "initialize_membership_functions n_mf (Suc i) h =
     (let (h1, mp) = initialize_membership_functions n_mf i h;
          (h2, centers) = alloc h1 (linspace 0 1 n_mf);
          (h3, widths) = alloc h2 (map (\<lambda>one. one * 0.2) (replicate n_mf 1))
      in (h3, mp @ [(centers, widths)]))"

text \<open>
  The constructor. The draw of the random consequents (an \<open>n_rules\<close> by \<open>n_inputs + 1\<close>
  matrix of standard normal samples) is the argument \<open>randn\<close>.
\<close>

definition initialize_rule_consequents :: "real list list \<Rightarrow> real list list" where
  "initialize_rule_consequents randn = map (map (\<lambda>v. v * 0.1)) randn"

definition ANFISModel_init ::
  "heap \<Rightarrow> nat \<Rightarrow> nat \<Rightarrow> nat \<Rightarrow> real list list \<Rightarrow> heap \<times> ANFISModel" where
  "ANFISModel_init h n_in n_r n_mf randn =
     (let (h1, mp) = initialize_membership_functions n_mf n_in h
      in (h1, \<lparr>n_inputs = n_in, n_rules = n_r, n_membership_functions = n_mf,
               membership_params = mp,
               rule_consequents = initialize_rule_consequents randn,
               training_history = \<lparr>loss = [], val_loss = []\<rparr>,
               best_weights = None, best_val_loss = PosInf, patience_counter = 0\<rparr>))"

definition centers_of :: "heap \<Rightarrow> ANFISModel \<Rightarrow> nat \<Rightarrow> real list" where
  "centers_of h m i = arrays h (fst (membership_params m ! i))"

definition widths_of :: "heap \<Rightarrow> ANFISModel \<Rightarrow> nat \<Rightarrow> real list" where
  "widths_of h m i = arrays h (snd (membership_params m ! i))"

definition gaussian_membership :: "real list \<Rightarrow> real \<Rightarrow> real \<Rightarrow> real list" where
  "gaussian_membership x center width =
     map (\<lambda>v. exp (- 0.5 * ((v - center) / width) ^ 2)) x"

text \<open>
  Entry \<open>i\<close> of the result is the matrix \<open>input_i\<close> of the source: one row per sample,
  one column per membership function.
\<close>

definition input_memberships :: "real list \<Rightarrow> real list \<Rightarrow> nat \<Rightarrow> real list \<Rightarrow> real list list" where
  "input_memberships centers widths n_mf xi =
     foldl (\<lambda>a j. set_column a j (gaussian_membership xi (centers ! j) (widths ! j)))
       (replicate (length xi) (replicate n_mf 0)) [0..<n_mf]"

text \<open>
  The Gaussian divides by the width once per sample; with a width of zero and a sample
  in the batch the quotient is not a finite number.
\<close>

definition zero_width :: "heap \<Rightarrow> ANFISModel \<Rightarrow> bool" where
  "zero_width h m =
     list_ex (\<lambda>i. list_ex (\<lambda>j. widths_of h m i ! j = 0) [0..<n_membership_functions m])
       [0..<n_inputs m]"

definition calculate_membership_degrees ::
  "heap \<Rightarrow> ANFISModel \<Rightarrow> real list list \<Rightarrow> failure + real list list list" where
  "calculate_membership_degrees h m x =
     (if x \<noteq> [] \<and> zero_width h m then Inl NonFinite
      else Inr (map (\<lambda>i. input_memberships (centers_of h m i) (widths_of h m i)
                          (n_membership_functions m) (column x i))
                  [0..<n_inputs m]))"

text \<open>
  The innermost loop of \<open>generate_rules\<close>: the column of rule \<open>rule_idx\<close> is overwritten
  by input 0 and multiplied by every further input.
\<close>

definition rule_factor ::
  "real list list list \<Rightarrow> nat \<Rightarrow> nat \<Rightarrow> real list \<Rightarrow> nat \<Rightarrow> real list" where
  "rule_factor degs i j col input_idx =
     (if input_idx = 0 then column (degs ! input_idx) i
      else if input_idx = 1 then map2 (*) col (column (degs ! input_idx) j)
      else map2 (*) col (column (degs ! input_idx) 0))"

definition rule_cell ::
  "nat \<Rightarrow> real list list list \<Rightarrow> nat \<Rightarrow> nat \<Rightarrow> nat \<Rightarrow> real list list \<Rightarrow> real list list" where
  "rule_cell n_in degs i j rule_idx rs =
     set_column rs rule_idx
       (foldl (rule_factor degs i j) (column rs rule_idx) [0..<n_in])"

text \<open>The loop over \<open>j\<close>, with its \<open>break\<close>, and the loop over \<open>i\<close> around it.\<close>

fun rules_inner ::
  "nat \<Rightarrow> nat \<Rightarrow> real list list list \<Rightarrow> nat \<Rightarrow> nat list \<Rightarrow> nat \<times> real list list
     \<Rightarrow> nat \<times> real list list" where
  "rules_inner n_in n_r degs i [] st = st"
| "rules_inner n_in n_r degs i (j # js) (rule_idx, rs) =
     (if rule_idx \<ge> n_r then (rule_idx, rs)
      else rules_inner n_in n_r degs i js (rule_idx + 1, rule_cell n_in degs i j rule_idx rs))"

definition generate_rules ::
  "ANFISModel \<Rightarrow> real list list list \<Rightarrow> failure + real list list" where
  "generate_rules m degs =
     (case degs of
        [] \<Rightarrow> Inl IndexError
      | first # _ \<Rightarrow>
          let n_samples = length first;
              rule_strengths = replicate n_samples (replicate (n_rules m) 1)
          in Inr (snd (fold (\<lambda>i st. rules_inner (n_inputs m) (n_rules m) degs i
                                       [0..<n_membership_functions m] st)
                         [0..<n_membership_functions m] (0, rule_strengths))))"

definition calculate_rule_outputs :: "ANFISModel \<Rightarrow> real list list \<Rightarrow> real list list" where
  "calculate_rule_outputs m x =
     foldl (\<lambda>rule_outputs i.
              let consequent_params = rule_consequents m ! i
              in set_column rule_outputs i
                   (map (\<lambda>row. dot row (butlast consequent_params) + last consequent_params) x))
       (replicate (length x) (replicate (n_rules m) 0)) [0..<n_rules m]"

record cache =
  membership_degrees :: "real list list list"
  rule_strengths :: "real list list"
  rule_outputs :: "real list list"

text \<open>The denominator of the weighted average, after the replacement of a zero sum.\<close>

definition rule_strength_sum :: "real list list \<Rightarrow> real list" where
  "rule_strength_sum rs = map (\<lambda>row. let s = sum_list row in if s = 0 then 1 / 10 ^ 10 else s) rs"

definition sigmoid :: "real \<Rightarrow> real" where
  "sigmoid z = 1 / (1 + exp (- z))"

definition forward_pass ::
  "heap \<Rightarrow> ANFISModel \<Rightarrow> real list list \<Rightarrow> failure + (real list \<times> cache)" where
  "forward_pass h m x =
     (case calculate_membership_degrees h m x of
        Inl e \<Rightarrow> Inl e
      | Inr degs \<Rightarrow>
         (case generate_rules m degs of
            Inl e \<Rightarrow> Inl e
          | Inr rs \<Rightarrow>
              let ro = calculate_rule_outputs m x;
                  weighted_sum = map (\<lambda>(s, out). sum_list (map2 (*) s out)) (zip rs ro);
                  output = map (\<lambda>(ws, d). ws / d) (zip weighted_sum (rule_strength_sum rs))
              in Inr (map sigmoid output,
                      \<lparr>membership_degrees = degs, rule_strengths = rs, rule_outputs = ro\<rparr>)))"

definition predict_proba :: "heap \<Rightarrow> ANFISModel \<Rightarrow> real list list \<Rightarrow> failure + real list" where
  "predict_proba h m x = (case forward_pass h m x of Inl e \<Rightarrow> Inl e | Inr (y, c) \<Rightarrow> Inr y)"

definition predict :: "heap \<Rightarrow> ANFISModel \<Rightarrow> real list list \<Rightarrow> failure + nat list" where
  "predict h m x =
     (case forward_pass h m x of
        Inl e \<Rightarrow> Inl e
      | Inr (y, c) \<Rightarrow> Inr (map (\<lambda>p. if p > 0.5 then 1 else 0) y))"

section \<open>The training step and the training loop (anfis\_trainer.py)\<close>

definition clip :: "real \<Rightarrow> real \<Rightarrow> real \<Rightarrow> real" where
  "clip v a_min a_max = min (max v a_min) a_max"

definition array_update :: "heap \<Rightarrow> addr \<Rightarrow> nat \<Rightarrow> real \<Rightarrow> heap" where
  "array_update h a j v = h\<lparr>arrays := (arrays h)(a := (arrays h a)[j := v])\<rparr>"

text \<open>A loop whose body can fail: the first failure ends it.\<close>

fun foldM :: "('a \<Rightarrow> 's \<Rightarrow> failure + 's) \<Rightarrow> 'a list \<Rightarrow> 's \<Rightarrow> failure + 's" where
  "foldM f [] s = Inr s"
| "foldM f (a # as) s = (case f a s of Inl e \<Rightarrow> Inl e | Inr s' \<Rightarrow> foldM f as s')"

text \<open>
  The body of the loop over the rules in \<open>backward_pass\<close>: the gradient of rule \<open>i\<close> is the
  mean, over the batch, of \<open>grad_output\<close> times the strength of the rule times the input
  (times 1 for the bias), and row \<open>i\<close> of the consequents is decreased by it in place.
\<close>

definition consequent_step ::
  "real \<Rightarrow> real list \<Rightarrow> real list list \<Rightarrow> real list list \<Rightarrow> real list list \<Rightarrow> nat
     \<Rightarrow> real list list" where
  "consequent_step learning_rate grad_output rs x rc i =
     (let grad_linear =
            map (\<lambda>c. mean (map (\<lambda>(g, s, v). g * s * v)
                               (zip grad_output (zip (column rs i) (column x c)))))
              [0..<length (hd x)];
          grad_bias = mean (map2 (*) grad_output (column rs i));
          grad_consequent = grad_linear @ [grad_bias]
      in rc[i := map2 (\<lambda>p g. p - learning_rate * g) (rc ! i) grad_consequent])"

text \<open>
  The body of the loop over the membership functions of one input. \<open>centers\<close> and
  \<open>widths\<close> are the two array objects of the input; every read goes to the store, so
  that the width update sees the center that was just written. Both gradients divide by
  a power of the width.
\<close>

definition membership_step ::
  "real \<Rightarrow> real list \<Rightarrow> real list list list \<Rightarrow> real list list \<Rightarrow> addr \<times> addr \<Rightarrow> nat \<Rightarrow> nat
     \<Rightarrow> heap \<Rightarrow> failure + heap" where
  "membership_step learning_rate grad_output degs x key input_idx j h =
     (let (centers, widths) = key;
          deg_x = zip grad_output (zip (column (degs ! input_idx) j) (column x input_idx))
      in if arrays h widths ! j = 0 then Inl NonFinite
         else
           let grad_center =
                 mean (map (\<lambda>(g, d, v). g * d * (v - arrays h centers ! j)
                                          / (arrays h widths ! j) ^ 2) deg_x);
               h1 = array_update h centers j
                      (arrays h centers ! j - learning_rate * grad_center)
           in if arrays h1 widths ! j = 0 then Inl NonFinite
              else
                let grad_width =
                      mean (map (\<lambda>(g, d, v). g * d * (v - arrays h1 centers ! j) ^ 2
                                               / (arrays h1 widths ! j) ^ 3) deg_x);
                    h2 = array_update h1 widths j
                           (arrays h1 widths ! j - learning_rate * grad_width);
                    h3 = array_update h2 widths j (max (arrays h2 widths ! j) 0.01)
                in Inr h3)"

text \<open>
  \<open>backward_pass\<close> returns the loss; the model and the store are returned updated. The
  mean over an empty batch is a NaN that the updates would write into every parameter.
\<close>

definition backward_pass ::
  "heap \<Rightarrow> ANFISModel \<Rightarrow> real list list \<Rightarrow> real list \<Rightarrow> real
     \<Rightarrow> failure + (heap \<times> ANFISModel \<times> real)" where
  "backward_pass h m x y_true learning_rate =
     (case forward_pass h m x of
        Inl e \<Rightarrow> Inl e
      | Inr (y_pred0, c) \<Rightarrow>
          if y_true = [] then Inl NonFinite
          else
            let epsilon = 1 / 10 ^ 15;
                y_pred = map (\<lambda>p. clip p epsilon (1 - epsilon)) y_pred0;
                loss = - mean (map2 (\<lambda>t p. t * ln p + (1 - t) * ln (1 - p)) y_true y_pred);
                grad_output = map2 (\<lambda>p t. (p - t) / real (length y_true)) y_pred y_true;
                m1 = m\<lparr>rule_consequents :=
                         foldl (consequent_step learning_rate grad_output (rule_strengths c) x)
                           (rule_consequents m) [0..<n_rules m]\<rparr>
            in (case foldM (\<lambda>input_idx.
                         foldM (membership_step learning_rate grad_output
                                  (membership_degrees c) x
                                  (membership_params m ! input_idx) input_idx)
                           [0..<n_membership_functions m])
                       [0..<n_inputs m] h of
                  Inl e \<Rightarrow> Inl e
                | Inr h' \<Rightarrow> Inr (h', m1, loss)))"

fun np_neg :: "npfloat \<Rightarrow> npfloat" where
  "np_neg (Finite v) = Finite (- v)"
| "np_neg PosInf = NegInf"
| "np_neg NegInf = PosInf"
| "np_neg NaN = NaN"

definition validation_loss :: "real list \<Rightarrow> real list \<Rightarrow> npfloat" where
  "validation_loss y_val y_val_pred =
     np_neg (np_mean (map2 (\<lambda>t p. t * ln (p + 1 / 10 ^ 15) + (1 - t) * ln (1 - p + 1 / 10 ^ 15))
                        y_val y_val_pred))"

text \<open>The loop over the mini-batches of one epoch; the state carries the summed loss.\<close>

definition train_batch ::
  "real list list \<Rightarrow> real list \<Rightarrow> real \<Rightarrow> nat \<Rightarrow> nat
     \<Rightarrow> heap \<times> ANFISModel \<times> real \<Rightarrow> failure + (heap \<times> ANFISModel \<times> real)" where
  "train_batch x_shuffled y_shuffled learning_rate batch_size batch_idx st =
     (let (h, m, train_loss) = st;
          n_samples = length x_shuffled;
          start_idx = batch_idx * batch_size;
          end_idx = min (start_idx + batch_size) n_samples;
          x_batch = take (end_idx - start_idx) (drop start_idx x_shuffled);
          y_batch = take (end_idx - start_idx) (drop start_idx y_shuffled)
      in case backward_pass h m x_batch y_batch learning_rate of
           Inl e \<Rightarrow> Inl e
         | Inr (h', m', batch_loss) \<Rightarrow> Inr (h', m', train_loss + batch_loss))"

text \<open>
  One epoch. \<open>indices\<close> is the random permutation drawn for the epoch. The snapshot of
  the best weights copies the dictionary of the membership parameters, that is, its
  entries: the addresses of the arrays. The consequents are copied as an array, by value.
\<close>

definition train_epoch ::
  "real list list \<Rightarrow> real list \<Rightarrow> real list list \<Rightarrow> real list \<Rightarrow> real \<Rightarrow> nat \<Rightarrow> nat list
     \<Rightarrow> heap \<times> ANFISModel \<Rightarrow> failure + (heap \<times> ANFISModel)" where
  "train_epoch x_train y_train x_val y_val learning_rate batch_size indices st =
     (let (h, m) = st;
          n_samples = length x_train;
          n_batches = (n_samples + batch_size - 1) div batch_size;
          x_shuffled = map (\<lambda>k. x_train ! k) indices;
          y_shuffled = map (\<lambda>k. y_train ! k) indices
      in case foldM (train_batch x_shuffled y_shuffled learning_rate batch_size)
                [0..<n_batches] (h, m, 0) of
           Inl e \<Rightarrow> Inl e
         | Inr (h1, m1, train_loss_sum) \<Rightarrow>
             if n_batches = 0 then Inl ZeroDivisionError
             else
               let train_loss = train_loss_sum / real n_batches
               in (case forward_pass h1 m1 x_val of
                    Inl e \<Rightarrow> Inl e
                  | Inr (y_val_pred, c) \<Rightarrow>
                      (case forward_pass h1 m1 x_train of
                         Inl e \<Rightarrow> Inl e
                       | Inr train_pred \<Rightarrow>
                           let vl = validation_loss y_val y_val_pred;
                               hist = training_history m1;
                               m2 = m1\<lparr>training_history :=
                                        hist\<lparr>loss := loss hist @ [train_loss],
                                             val_loss := val_loss hist @ [vl]\<rparr>\<rparr>;
                               m3 = (if np_less vl (best_val_loss m2)
                                     then m2\<lparr>best_val_loss := vl,
                                             best_weights :=
                                               Some (membership_params m2, rule_consequents m2),
                                             patience_counter := 0\<rparr>
                                     else m2\<lparr>patience_counter := patience_counter m2 + 1\<rparr>)
                           in Inr (h1, m3))))"

text \<open>The loop over the epochs, left early once the patience is used up.\<close>

fun train_epochs ::
  "nat \<Rightarrow> (nat \<Rightarrow> heap \<times> ANFISModel \<Rightarrow> failure + (heap \<times> ANFISModel)) \<Rightarrow> nat list
     \<Rightarrow> heap \<times> ANFISModel \<Rightarrow> failure + (heap \<times> ANFISModel)" where
  "train_epochs patience body [] st = Inr st"
| "train_epochs patience body (epoch # epochs) st =
     (case body epoch st of
        Inl e \<Rightarrow> Inl e
      | Inr (h, m) \<Rightarrow>
          if patience_counter m \<ge> patience then Inr (h, m)
          else train_epochs patience body epochs (h, m))"

text \<open>
  \<open>train\<close>. The argument \<open>permutation\<close> gives the shuffle drawn in each epoch. After the
  loop the best weights, if any were recorded, are put back.
\<close>

definition restore_best_weights :: "ANFISModel \<Rightarrow> ANFISModel" where
  "restore_best_weights m =
     (case best_weights m of
        None \<Rightarrow> m
      | Some (mp, rc) \<Rightarrow> m\<lparr>membership_params := mp, rule_consequents := rc\<rparr>)"

definition train ::
  "heap \<Rightarrow> ANFISModel \<Rightarrow> real list list \<Rightarrow> real list \<Rightarrow> real list list \<Rightarrow> real list
     \<Rightarrow> nat \<Rightarrow> real \<Rightarrow> nat \<Rightarrow> nat \<Rightarrow> (nat \<Rightarrow> nat list) \<Rightarrow> failure + (heap \<times> ANFISModel)" where
  "train h m x_train y_train x_val y_val epochs learning_rate patience batch_size permutation =
     (if batch_size = 0 then Inl ZeroDivisionError
      else
        case train_epochs patience
               (\<lambda>epoch. train_epoch x_train y_train x_val y_val learning_rate batch_size
                           (permutation epoch))
               [0..<epochs] (h, m) of
          Inl e \<Rightarrow> Inl e
        | Inr (h', m') \<Rightarrow> Inr (h', restore_best_weights m'))"

section \<open>Persistence (anfis\_trainer.py)\<close>

text \<open>
  The pickled dictionary \<open>model_data\<close>. Pickling writes the contents of every array
  that the membership dictionary refers to, each array object once: the entries of
  \<open>md_membership_params\<close> name the pickled arrays and \<open>md_arrays\<close> gives their contents
  at the time of saving. The file itself and the failures of reading and writing it are
  outside the model.
\<close>

record model_data =
  md_membership_params :: "(addr \<times> addr) list"
  md_arrays :: "addr \<Rightarrow> real list"
  md_rule_consequents :: "real list list"
  md_n_inputs :: nat
  md_n_rules :: nat
  md_n_membership_functions :: nat
  md_training_history :: history

definition save_model :: "heap \<Rightarrow> ANFISModel \<Rightarrow> model_data" where
  "save_model h m =
     \<lparr>md_membership_params = membership_params m,
      md_arrays = arrays h,
      md_rule_consequents = rule_consequents m,
      md_n_inputs = n_inputs m,
      md_n_rules = n_rules m,
      md_n_membership_functions = n_membership_functions m,
      md_training_history = training_history m\<rparr>"

fun index_of :: "'a list \<Rightarrow> 'a \<Rightarrow> nat" where
  "index_of [] a = 0"
| "index_of (x # xs) a = (if x = a then 0 else Suc (index_of xs a))"

text \<open>
  Unpickling builds every pickled array anew, one new object per pickled array, and
  \<open>load_model\<close> assigns the six fields of the model it is called on.
\<close>

definition load_model :: "heap \<Rightarrow> ANFISModel \<Rightarrow> model_data \<Rightarrow> heap \<times> ANFISModel" where
  "load_model h m model_data =
     (let pickled = remdups (concat (map (\<lambda>(c, w). [c, w]) (md_membership_params model_data)));
          fresh = (\<lambda>a. next_free h + index_of pickled a);
          h' = h\<lparr>next_free := next_free h + length pickled,
                 arrays := (\<lambda>p. if next_free h \<le> p \<and> p < next_free h + length pickled
                                then md_arrays model_data (pickled ! (p - next_free h))
                                else arrays h p)\<rparr>
      in (h', m\<lparr>membership_params :=
                   map (\<lambda>(c, w). (fresh c, fresh w)) (md_membership_params model_data),
                 rule_consequents := md_rule_consequents model_data,
                 n_inputs := md_n_inputs model_data,
                 n_rules := md_n_rules model_data,
                 n_membership_functions := md_n_membership_functions model_data,
                 training_history := md_training_history model_data\<rparr>))"

section \<open>The one-vs-all ensemble (dataset\_trainer.py, main.py)\<close>

fun mapM :: "('a \<Rightarrow> failure + 'b) \<Rightarrow> 'a list \<Rightarrow> failure + 'b list" where
  "mapM f [] = Inr []"
| "mapM f (a # as) =
     (case f a of
        Inl e \<Rightarrow> Inl e
      | Inr b \<Rightarrow> (case mapM f as of Inl e \<Rightarrow> Inl e | Inr bs \<Rightarrow> Inr (b # bs)))"

text \<open>
  The index of the first maximum of a row; a NaN counts as the maximum, and the row must
  not be empty.
\<close>

definition np_argmax :: "npfloat list \<Rightarrow> failure + nat" where
  "np_argmax xs =
     (if xs = [] then Inl ValueError
      else if NaN \<in> set xs then Inr (index_of xs NaN)
      else Inr (fold (\<lambda>i best. if np_less (xs ! best) (xs ! i) then i else best)
                  [0..<length xs] 0))"

text \<open>
  \<open>predict_multi_class\<close>. The method \<open>predict_proba\<close> of the models is the parameter
  \<open>proba\<close>: in 64-bit floats the logistic squash returns exactly \<open>0.0\<close> once the weighted
  average is below about \<open>-745\<close>, which the real-valued \<open>sigmoid\<close> above never does, so
  the outputs that the models can deliver are not only those of \<^const>\<open>predict_proba\<close>.
  The division of a row by its sum is the plain array division.
\<close>

definition predict_multi_class ::
  "('model \<Rightarrow> real list list \<Rightarrow> failure + real list) \<Rightarrow> 'model list \<Rightarrow> real list list
     \<Rightarrow> failure + (nat list \<times> npfloat list list)" where
  "predict_multi_class proba models x =
     (let n_samples = length x;
          n_classes = length models
      in case foldM (\<lambda>(i, model) probabilities.
                       case proba model x of
                         Inl e \<Rightarrow> Inl e
                       | Inr p \<Rightarrow> Inr (set_column probabilities i p))
                (zip [0..<n_classes] models)
                (replicate n_samples (replicate n_classes 0)) of
           Inl e \<Rightarrow> Inl e
         | Inr probabilities \<Rightarrow>
             let row_sums = map sum_list probabilities;
                 normalized = map (\<lambda>(row, s). map (\<lambda>p. np_divide p s) row)
                                (zip probabilities row_sums)
             in (case mapM np_argmax normalized of
                   Inl e \<Rightarrow> Inl e
                 | Inr predictions \<Rightarrow> Inr (predictions, normalized)))"

text \<open>
  The normalisation in \<open>predict_with_anfis\<close> (main.py), on the list of the values of its
  dictionary of class probabilities.
\<close>

definition predict_with_anfis_normalize :: "real list \<Rightarrow> real list" where
  "predict_with_anfis_normalize probabilities =
     (let total_prob = sum_list probabilities
      in if total_prob > 0 then map (\<lambda>v. v / total_prob) probabilities
         else let n_classes = length probabilities
              in map (\<lambda>v. 1 / real n_classes) probabilities)"

section \<open>The active-learning loop (active\_learning.py)\<close>

text \<open>
  A feature dictionary is the list of its items. The binary F1 score of the external
  metrics library is the usual one, \<open>2 tp / (2 tp + fp + fn)\<close>, and \<open>0\<close> when there is
  neither a positive label nor a positive prediction. Of the dictionary that \<open>evaluate\<close>
  returns the loop reads the entry \<open>f1_score\<close> only, and \<open>evaluate\<close> is modelled as
  returning that entry.
\<close>

definition f1_score :: "real list \<Rightarrow> nat list \<Rightarrow> real" where
  "f1_score y_true y_pred =
     (let tp = length (filter (\<lambda>(t, p). t = 1 \<and> p = 1) (zip y_true y_pred));
          fp = length (filter (\<lambda>(t, p). t \<noteq> 1 \<and> p = 1) (zip y_true y_pred));
          fn = length (filter (\<lambda>(t, p). t = 1 \<and> p \<noteq> 1) (zip y_true y_pred))
      in if 2 * tp + fp + fn = 0 then 0 else real (2 * tp) / real (2 * tp + fp + fn))"

definition evaluate :: "heap \<times> ANFISModel \<Rightarrow> real list list \<Rightarrow> real list \<Rightarrow> failure + real" where
  "evaluate model x y =
     (case predict (fst model) (snd model) x of
        Inl e \<Rightarrow> Inl e
      | Inr y_pred \<Rightarrow>
          (case predict_proba (fst model) (snd model) x of
             Inl e \<Rightarrow> Inl e
           | Inr y_proba \<Rightarrow> Inr (f1_score y y_pred)))"

definition prepare_dataset ::
  "(string \<times> real) list list \<Rightarrow> string list \<Rightarrow> (string \<rightharpoonup> real)
     \<Rightarrow> failure + (real list list \<times> real list)" where
  "prepare_dataset features_list labels defect_to_binary =
     (case features_list of
        [] \<Rightarrow> Inl IndexError
      | first # _ \<Rightarrow>
          let feature_names = map fst first
          in (case mapM (\<lambda>f. mapM (\<lambda>name. (case map_of f name of
                                              None \<Rightarrow> Inl KeyError
                                            | Some v \<Rightarrow> Inr v)) feature_names)
                     features_list of
                Inl e \<Rightarrow> Inl e
              | Inr x \<Rightarrow>
                  (case mapM (\<lambda>label. (case defect_to_binary label of
                                          None \<Rightarrow> Inl KeyError
                                        | Some v \<Rightarrow> Inr v)) labels of
                     Inl e \<Rightarrow> Inl e
                   | Inr y \<Rightarrow> Inr (x, y))))"

record synthetic_sample =
  defect_type :: string
  features :: "(string \<times> real) list"
  is_synthetic :: bool

record performance_entry =
  pe_iteration :: nat
  pe_performance :: real
  pe_n_samples :: nat

record history_entry =
  he_iteration :: nat
  he_uncertain_samples :: nat
  he_new_samples :: nat
  he_performance :: real

text \<open>
  The controller. Its two collaborators are fields. \<open>trainer\<close> stands for
  \<open>self.trainer.train_model\<close> with 100 epochs and patience 10: it builds a new model from
  random consequents and trains it with random shuffles, and what it returns in
  iteration \<open>k\<close> on a training set is taken as given. \<open>generate_single_image\<close> stands for
  the generation of the \<open>i\<close>-th synthetic image of a defect type followed by the
  extraction of its features; it delivers the features or raises.
\<close>

record ActiveLearningSystem =
  confidence_threshold :: real
  max_iterations :: nat
  samples_per_iteration :: int
  trainer :: "nat \<Rightarrow> real list list \<Rightarrow> real list \<Rightarrow> failure + (heap \<times> ANFISModel)"
  generate_single_image :: "string \<Rightarrow> nat \<Rightarrow> failure + (string \<times> real) list"

definition identify_uncertain_samples ::
  "ActiveLearningSystem \<Rightarrow> heap \<times> ANFISModel \<Rightarrow> real list list \<Rightarrow> failure + nat list" where
  "identify_uncertain_samples sys model x_val =
     (case predict_proba (fst model) (snd model) x_val of
        Inl e \<Rightarrow> Inl e
      | Inr predictions \<Rightarrow>
          let confidence = map (\<lambda>p. \<bar>p - 0.5\<bar> * 2) predictions
          in Inr (filter (\<lambda>k. confidence ! k < confidence_threshold sys)
                    [0..<length confidence]))"

text \<open>
  The result is a list made from a set of names. The order in which a set is listed is
  not fixed by the language; here the names keep the order in which they were added.
\<close>

definition analyze_uncertain_samples ::
  "heap \<times> ANFISModel \<Rightarrow> real list list \<Rightarrow> real list \<Rightarrow> nat list \<Rightarrow> failure + string list" where
  "analyze_uncertain_samples model x_val y_val uncertain_indices =
     (case predict_proba (fst model) (snd model) (map (\<lambda>k. x_val ! k) uncertain_indices) of
        Inl e \<Rightarrow> Inl e
      | Inr uncertain_predictions \<Rightarrow>
          let uncertain_true_labels = map (\<lambda>k. y_val ! k) uncertain_indices;
              pairs = zip uncertain_predictions uncertain_true_labels;
              needed1 = (if list_ex (\<lambda>(p, t). p > 0.5 \<and> t = 0) pairs
                         then [''healthy''] else []);
              needed2 = needed1 @ (if list_ex (\<lambda>(p, t). p \<le> 0.5 \<and> t = 1) pairs
                                   then [''anthracnose'', ''blight'', ''rot''] else []);
              needed3 = needed2 @ (if list_ex (\<lambda>p. \<bar>p - 0.5\<bar> < 0.2) uncertain_predictions
                                   then [''sunscald'', ''mildew'', ''insect''] else []);
              defect_types_needed = remdups needed3
          in Inr (if defect_types_needed = [] then [''healthy'', ''anthracnose'', ''blight'']
                  else defect_types_needed))"

text \<open>
  The number of samples requested for a defect type that occurs \<open>count\<close> times among the
  \<open>n_types\<close> uncertain defect types, and the calls of the generator that
  \<open>generate_targeted_synthetic_samples\<close> makes, in their order.
\<close>

definition samples_needed :: "int \<Rightarrow> nat \<Rightarrow> nat \<Rightarrow> nat" where
  "samples_needed n_samples count n_types =
     nat (max 1 ((n_samples * int count) div int n_types))"

definition requested_samples :: "string list \<Rightarrow> int \<Rightarrow> (string \<times> nat) list" where
  "requested_samples uncertain_defect_types n_samples =
     concat (map (\<lambda>d. map (\<lambda>i. (d, i))
                          [0..<samples_needed n_samples (count_list uncertain_defect_types d)
                                 (length uncertain_defect_types)])
               (rev (remdups (rev uncertain_defect_types))))"

definition generate_targeted_synthetic_samples ::
  "ActiveLearningSystem \<Rightarrow> string list \<Rightarrow> int \<Rightarrow> failure + synthetic_sample list" where
  "generate_targeted_synthetic_samples sys uncertain_defect_types n_samples =
     mapM (\<lambda>(d, i). case generate_single_image sys d i of
                        Inl e \<Rightarrow> Inl e
                      | Inr f \<Rightarrow> Inr \<lparr>defect_type = d, features = f, is_synthetic = True\<rparr>)
       (requested_samples uncertain_defect_types n_samples)"

definition update_training_data ::
  "(string \<times> real) list list \<Rightarrow> string list \<Rightarrow> synthetic_sample list
     \<Rightarrow> (string \<times> real) list list \<times> string list" where
  "update_training_data current_features current_labels new_samples =
     (current_features @ map features new_samples,
      current_labels @ map defect_type new_samples)"

record al_state =
  current_features :: "(string \<times> real) list list"
  current_labels :: "string list"
  best_model :: "(heap \<times> ANFISModel) option"
  best_performance :: real
  al_training_history :: "history_entry list"
  model_performance :: "performance_entry list"

text \<open>
  The body of the loop for one iteration. The flag of the result tells whether the loop
  was left by \<open>break\<close>. The writing of the best model to a file is outside the model.
\<close>

definition active_learning_iteration ::
  "ActiveLearningSystem \<Rightarrow> real list list \<Rightarrow> real list \<Rightarrow> (string \<rightharpoonup> real) \<Rightarrow> nat
     \<Rightarrow> al_state \<Rightarrow> failure + (bool \<times> al_state)" where
  "active_learning_iteration sys x_val y_val defect_to_binary iteration st =
     (case prepare_dataset (current_features st) (current_labels st) defect_to_binary of
        Inl e \<Rightarrow> Inl e
      | Inr (x_train, y_train) \<Rightarrow>
     (case trainer sys iteration x_train y_train of
        Inl e \<Rightarrow> Inl e
      | Inr model \<Rightarrow>
     (case evaluate model x_val y_val of
        Inl e \<Rightarrow> Inl e
      | Inr performance \<Rightarrow>
          let st1 = st\<lparr>model_performance := model_performance st @
                         [\<lparr>pe_iteration = iteration, pe_performance = performance,
                           pe_n_samples = length (current_features st)\<rparr>]\<rparr>;
              st2 = (if performance > best_performance st1
                     then st1\<lparr>best_performance := performance, best_model := Some model\<rparr>
                     else st1)
          in (case identify_uncertain_samples sys model x_val of
                Inl e \<Rightarrow> Inl e
              | Inr uncertain_indices \<Rightarrow>
                  if length uncertain_indices = 0 then Inr (True, st2)
                  else
                    (case analyze_uncertain_samples model x_val y_val uncertain_indices of
                       Inl e \<Rightarrow> Inl e
                     | Inr uncertain_defect_types \<Rightarrow>
                    (case generate_targeted_synthetic_samples sys uncertain_defect_types
                            (samples_per_iteration sys) of
                       Inl e \<Rightarrow> Inl e
                     | Inr new_samples \<Rightarrow>
                         let (fs, ls) = update_training_data (current_features st2)
                                          (current_labels st2) new_samples
                         in Inr (False,
                                 st2\<lparr>current_features := fs, current_labels := ls,
                                     al_training_history := al_training_history st2 @
                                       [\<lparr>he_iteration = iteration,
                                         he_uncertain_samples = length uncertain_indices,
                                         he_new_samples = length new_samples,
                                         he_performance = performance\<rparr>]\<rparr>)))))))"

fun active_learning_iterations ::
  "ActiveLearningSystem \<Rightarrow> real list list \<Rightarrow> real list \<Rightarrow> (string \<rightharpoonup> real) \<Rightarrow> nat list
     \<Rightarrow> al_state \<Rightarrow> failure + al_state" where
  "active_learning_iterations sys x_val y_val defect_to_binary [] st = Inr st"
| "active_learning_iterations sys x_val y_val defect_to_binary (iteration # rest) st =
     (case active_learning_iteration sys x_val y_val defect_to_binary iteration st of
        Inl e \<Rightarrow> Inl e
      | Inr (stop, st') \<Rightarrow>
          if stop then Inr st'
          else active_learning_iterations sys x_val y_val defect_to_binary rest st')"

text \<open>
  \<open>active_learning_loop\<close> returns the best model together with the two histories; all
  three are fields of the final state. It starts without a best model and with a best
  performance of \<open>0.0\<close>.
\<close>

definition initial_al_state :: "(string \<times> real) list list \<Rightarrow> string list \<Rightarrow> al_state" where
  "initial_al_state initial_features initial_labels =
     \<lparr>current_features = initial_features, current_labels = initial_labels,
      best_model = None, best_performance = 0,
      al_training_history = [], model_performance = []\<rparr>"

definition active_learning_loop ::
  "ActiveLearningSystem \<Rightarrow> (string \<times> real) list list \<Rightarrow> string list \<Rightarrow> real list list
     \<Rightarrow> real list \<Rightarrow> (string \<rightharpoonup> real) \<Rightarrow> failure + al_state" where
  "active_learning_loop sys initial_features initial_labels x_val y_val defect_to_binary =
     active_learning_iterations sys x_val y_val defect_to_binary [0..<max_iterations sys]
       (initial_al_state initial_features initial_labels)"

section \<open>Notions used to state the properties of the rule layer\<close>

text \<open>
  The membership function that input \<open>input_idx\<close> contributes to the rule of grid cell
  \<open>(i, j)\<close>, and the strength of that cell for sample \<open>s\<close>: the product of the selected
  degrees over all inputs.
\<close>

definition selected_mf :: "nat \<Rightarrow> nat \<Rightarrow> nat \<Rightarrow> nat" where
  "selected_mf i j input_idx = (if input_idx = 0 then i else if input_idx = 1 then j else 0)"

definition cell_strength :: "real list list list \<Rightarrow> nat \<Rightarrow> nat \<Rightarrow> nat \<Rightarrow> nat \<Rightarrow> real" where
  "cell_strength degs n_in i j s =
     prod_list (map (\<lambda>k. degs ! k ! s ! selected_mf i j k) [0..<n_in])"

text \<open>
  The reading of "the rules combine the membership functions of the first two inputs
  exhaustively": every grid cell \<open>(i, j)\<close> is the cell of some rule.
\<close>

definition spec_exhaustive_grid :: "ANFISModel \<Rightarrow> real list list list \<Rightarrow> bool" where
  "spec_exhaustive_grid m degs =
     (case generate_rules m degs of
        Inl e \<Rightarrow> False
      | Inr rs \<Rightarrow>
          list_all (\<lambda>i. list_all (\<lambda>j.
              list_ex (\<lambda>r. column rs r = map (cell_strength degs (n_inputs m) i j) [0..<length rs])
                [0..<n_rules m])
            [0..<n_membership_functions m])
          [0..<n_membership_functions m])"

text \<open>The state of the two loops of \<open>generate_rules\<close> after \<open>k\<close> grid cells.\<close>

definition rules_inv ::
  "nat \<Rightarrow> nat \<Rightarrow> nat \<Rightarrow> real list list list \<Rightarrow> nat \<Rightarrow> nat \<Rightarrow> nat \<times> real list list \<Rightarrow> bool" where
  "rules_inv n_in n_r n_mf degs ns k st =
     (fst st = min k n_r \<and> length (snd st) = ns \<and>
      (\<forall>s<ns. length (snd st ! s) = n_r \<and>
         (\<forall>r<n_r. snd st ! s ! r =
            (if r < k then cell_strength degs n_in (r div n_mf) (r mod n_mf) s else 1))))"


text \<open>Small concrete models and batches, used to run the definitions.\<close>

definition empty_heap :: heap where
  "empty_heap = \<lparr>next_free = 0, arrays = (\<lambda>a. [])\<rparr>"

definition grid_model :: ANFISModel where
  "grid_model = snd (ANFISModel_init empty_heap 2 2 2 [[0, 0, 0], [0, 0, 0]])"

definition grid_degrees :: "real list list list" where
  "grid_degrees = [[[1/2, 1/3]], [[1/5, 1/7]]]"

text \<open>A freshly constructed model with one input, one rule and one membership function.\<close>

definition unit_state :: "heap \<times> ANFISModel" where
  "unit_state = ANFISModel_init empty_heap 1 1 1 [[0, 0]]"

definition unit_heap :: heap where
  "unit_heap = fst unit_state"

definition unit_model :: ANFISModel where
  "unit_model = snd unit_state"

section \<open>Notions used to state the properties of the training step\<close>

text \<open>
  The update of one rule's consequents as the specification words it: the old parameters
  minus the learning rate times the mean, over the batch, of
  \<open>(pred - target) * rule_strength * [x, 1]\<close>.
\<close>

definition spec_consequent_update ::
  "real \<Rightarrow> real list \<Rightarrow> real list \<Rightarrow> real list \<Rightarrow> real list list \<Rightarrow> real list \<Rightarrow> real list" where
  "spec_consequent_update learning_rate pred target strength x old =
     map2 (\<lambda>p g. p - learning_rate * g) old
       (map (\<lambda>c. mean (map (\<lambda>k. (pred ! k - target ! k) * strength ! k * (x ! k ! c))
                          [0..<length x]))
          [0..<length (hd x)]
        @ [mean (map (\<lambda>k. (pred ! k - target ! k) * strength ! k) [0..<length x])])"

definition spec_consequents_after_step ::
  "heap \<Rightarrow> ANFISModel \<Rightarrow> real list list \<Rightarrow> real list \<Rightarrow> real \<Rightarrow> failure + real list list" where
  "spec_consequents_after_step h m x y_true learning_rate =
     (case forward_pass h m x of
        Inl e \<Rightarrow> Inl e
      | Inr (pred, c) \<Rightarrow>
          Inr (map (\<lambda>i. spec_consequent_update learning_rate pred y_true
                           (column (rule_strengths c) i) x (rule_consequents m ! i))
                 [0..<n_rules m]))"

text \<open>The consequents that one call of \<open>backward_pass\<close> leaves in the model.\<close>

definition consequents_after_step ::
  "heap \<Rightarrow> ANFISModel \<Rightarrow> real list list \<Rightarrow> real list \<Rightarrow> real \<Rightarrow> failure + real list list" where
  "consequents_after_step h m x y_true learning_rate =
     (case backward_pass h m x y_true learning_rate of
        Inl e \<Rightarrow> Inl e
      | Inr (h', m', l) \<Rightarrow> Inr (rule_consequents m'))"


section \<open>Notions used to state the properties of the ensemble and of the controller\<close>

text \<open>A model whose \<open>predict_proba\<close> returns the same value \<open>p\<close> for every sample.\<close>

definition saturated_proba :: "real \<Rightarrow> real list list \<Rightarrow> failure + real list" where
  "saturated_proba p x = Inr (map (\<lambda>row. p) x)"

text \<open>
  Two controllers on a one-sample pool and a one-sample validation set. The trainer of
  the first returns the freshly constructed one-input model, which answers \<open>1/2\<close>
  everywhere, and its generator fails for the defect type \<open>mildew\<close> only. The trainer of
  the second returns a model that answers less than \<open>0.15\<close>, and its generator never
  fails.
\<close>

definition confident_state :: "heap \<times> ANFISModel" where
  "confident_state = ANFISModel_init empty_heap 1 1 1 [[0, - 100]]"

definition mildew_failing_system :: ActiveLearningSystem where
  "mildew_failing_system =
     \<lparr>confidence_threshold = 0.7, max_iterations = 3, samples_per_iteration = 3,
      trainer = (\<lambda>iteration x y. Inr unit_state),
      generate_single_image =
        (\<lambda>d i. if d = ''mildew'' then Inl GeneratorError else Inr [(''hue'', 0)])\<rparr>"

definition confident_system :: ActiveLearningSystem where
  "confident_system =
     \<lparr>confidence_threshold = 0.7, max_iterations = 3, samples_per_iteration = 3,
      trainer = (\<lambda>iteration x y. Inr confident_state),
      generate_single_image = (\<lambda>d i. Inr [(''hue'', 0)])\<rparr>"

definition healthy_only :: "string \<rightharpoonup> real" where
  "healthy_only = [''healthy'' \<mapsto> 0, ''defective'' \<mapsto> 1]"

section \<open>The rule layer\<close>

lemma length_set_column: "length (set_column a j v) = min (length a) (length v)"
  by (simp add: set_column_def)

lemma nth_set_column:
  "s < length a \<Longrightarrow> s < length v \<Longrightarrow>
   set_column a j v ! s = (a ! s)[j := v ! s]"
  by (simp add: set_column_def)

lemma length_column: "length (column a j) = length a"
  by (simp add: column_def)

lemma foldl_rule_factor:
  assumes "0 < n" and "\<forall>k<n. length (degs ! k) = ns"
  shows "foldl (rule_factor degs i j) col [0..<n] = map (cell_strength degs n i j) [0..<ns]"
  using assms
proof (induction n)
  case 0
  then show ?case by simp
next
  case (Suc n)
  show ?case
  proof (cases "n = 0")
    case True
    with Suc.prems show ?thesis
      by (auto simp: rule_factor_def cell_strength_def selected_mf_def column_def
          intro!: nth_equalityI)
  next
    case False
    with Suc have IH: "foldl (rule_factor degs i j) col [0..<n] = map (cell_strength degs n i j) [0..<ns]"
      by simp
    from Suc.prems have len: "length (degs ! n) = ns" by simp
    have "foldl (rule_factor degs i j) col [0..<Suc n]
          = rule_factor degs i j (map (cell_strength degs n i j) [0..<ns]) n"
      by (simp add: IH)
    also have "\<dots> = map (cell_strength degs (Suc n) i j) [0..<ns]"
      using False len
      by (auto simp: rule_factor_def cell_strength_def selected_mf_def column_def
          intro!: nth_equalityI)
    finally show ?thesis .
  qed
qed


lemma rules_inv_cell:
  assumes inv: "rules_inv n_in n_r n_mf degs ns (i * n_mf + j) (rule_idx, rs)"
    and lt: "rule_idx < n_r" and j: "j < n_mf"
    and pos: "0 < n_in" and len: "\<forall>k<n_in. length (degs ! k) = ns"
  shows "rules_inv n_in n_r n_mf degs ns (Suc (i * n_mf + j))
           (rule_idx + 1, rule_cell n_in degs i j rule_idx rs)"
proof -
  from inv lt have idx: "rule_idx = i * n_mf + j"
    by (auto simp: rules_inv_def min_def split: if_splits)
  from inv have lrs: "length rs = ns"
    and rows: "\<And>s. s < ns \<Longrightarrow> length (rs ! s) = n_r"
    and old: "\<And>s r. s < ns \<Longrightarrow> r < n_r \<Longrightarrow>
        rs ! s ! r = (if r < i * n_mf + j then cell_strength degs n_in (r div n_mf) (r mod n_mf) s else 1)"
    by (auto simp: rules_inv_def)
  have col: "foldl (rule_factor degs i j) (column rs rule_idx) [0..<n_in]
      = map (cell_strength degs n_in i j) [0..<ns]"
    by (rule foldl_rule_factor [OF pos len])
  have dm: "(i * n_mf + j) div n_mf = i" "(i * n_mf + j) mod n_mf = j"
    using j by simp_all
  show ?thesis
    unfolding rules_inv_def rule_cell_def col
    using lt idx lrs rows old dm
    by (auto simp: length_set_column nth_set_column nth_list_update less_Suc_eq)
qed

lemma rules_inv_done:
  assumes "rules_inv n_in n_r n_mf degs ns k (rule_idx, rs)" and "n_r \<le> rule_idx" and "k \<le> k'"
  shows "rules_inv n_in n_r n_mf degs ns k' (rule_idx, rs)"
  using assms by (auto simp: rules_inv_def min_def split: if_splits)

lemma rules_inner_inv:
  assumes pos: "0 < n_in" and len: "\<forall>k<n_in. length (degs ! k) = ns"
  shows "j0 \<le> n_mf \<Longrightarrow> rules_inv n_in n_r n_mf degs ns (i * n_mf + j0) st \<Longrightarrow>
         rules_inv n_in n_r n_mf degs ns (i * n_mf + n_mf)
           (rules_inner n_in n_r degs i [j0..<n_mf] st)"
proof (induction "n_mf - j0" arbitrary: j0 st)
  case 0
  then show ?case by simp
next
  case (Suc d)
  obtain rule_idx rs where st: "st = (rule_idx, rs)" by (cases st)
  from Suc.hyps have j0: "j0 < n_mf" by simp
  then have upt: "[j0..<n_mf] = j0 # [Suc j0..<n_mf]" by (simp add: upt_conv_Cons)
  show ?case
  proof (cases "n_r \<le> rule_idx")
    case True
    then show ?thesis
      using Suc.prems st upt
      by (auto intro: rules_inv_done)
  next
    case False
    then have lt: "rule_idx < n_r" by simp
    have step: "rules_inv n_in n_r n_mf degs ns (i * n_mf + Suc j0)
           (rule_idx + 1, rule_cell n_in degs i j0 rule_idx rs)"
      using rules_inv_cell [OF _ lt j0 pos len] Suc.prems(2) st by simp
    have "rules_inv n_in n_r n_mf degs ns (i * n_mf + n_mf)
            (rules_inner n_in n_r degs i [Suc j0..<n_mf]
               (rule_idx + 1, rule_cell n_in degs i j0 rule_idx rs))"
      using Suc.hyps j0 by (intro Suc.hyps(1) step) auto
    then show ?thesis using False st upt by simp
  qed
qed

lemma rules_outer_inv:
  assumes pos: "0 < n_in" and len: "\<forall>k<n_in. length (degs ! k) = ns"
    and init: "rules_inv n_in n_r n_mf degs ns 0 st"
  shows "n \<le> n_mf \<Longrightarrow> rules_inv n_in n_r n_mf degs ns (n * n_mf)
           (fold (\<lambda>i st. rules_inner n_in n_r degs i [0..<n_mf] st) [0..<n] st)"
proof (induction n)
  case 0
  then show ?case using init by simp
next
  case (Suc n)
  then have IH: "rules_inv n_in n_r n_mf degs ns (n * n_mf + 0)
      (fold (\<lambda>i st. rules_inner n_in n_r degs i [0..<n_mf] st) [0..<n] st)"
    by simp
  show ?case
    using rules_inner_inv [OF pos len _ IH] by (simp add: add.commute)
qed

lemma generate_rules_strengths:
  assumes pos: "0 < n_inputs m" and ldegs: "length degs = n_inputs m"
    and len: "\<forall>k<n_inputs m. length (degs ! k) = ns"
  shows "\<exists>rs. generate_rules m degs = Inr rs \<and> length rs = ns \<and>
           (\<forall>s<ns. length (rs ! s) = n_rules m \<and>
              (\<forall>r<n_rules m. rs ! s ! r =
                 (if r < n_membership_functions m * n_membership_functions m
                  then cell_strength degs (n_inputs m)
                         (r div n_membership_functions m) (r mod n_membership_functions m) s
                  else 1)))"
proof -
  from pos ldegs obtain first rest where degs: "degs = first # rest"
    by (cases degs) auto
  from len pos degs have first: "length first = ns" by auto
  have init: "rules_inv (n_inputs m) (n_rules m) (n_membership_functions m) degs ns 0
      (0, replicate ns (replicate (n_rules m) 1))"
    by (simp add: rules_inv_def)
  have "rules_inv (n_inputs m) (n_rules m) (n_membership_functions m) degs ns
      (n_membership_functions m * n_membership_functions m)
      (fold (\<lambda>i st. rules_inner (n_inputs m) (n_rules m) degs i [0..<n_membership_functions m] st)
         [0..<n_membership_functions m] (0, replicate ns (replicate (n_rules m) 1)))"
    by (rule rules_outer_inv [OF pos len init]) simp
  then show ?thesis
    by (simp add: generate_rules_def degs first rules_inv_def)
qed

lemma grid_model_fields:
  "n_inputs grid_model = 2" "n_rules grid_model = 2" "n_membership_functions grid_model = 2"
  by (simp_all add: grid_model_def ANFISModel_init_def split_def Let_def)

lemma grid_rules: "generate_rules grid_model grid_degrees = Inr [[1/10, 1/14]]"
  by (simp add: generate_rules_def grid_model_fields grid_degrees_def rule_cell_def
      rule_factor_def set_column_def column_def eval_nat_numeral)

lemma grid_shape:
  "0 < n_inputs grid_model" "length grid_degrees = n_inputs grid_model"
  "\<forall>k<n_inputs grid_model. length (grid_degrees ! k) = 1"
  by (simp_all add: grid_model_fields grid_degrees_def less_Suc_eq numeral_2_eq_2)

text \<open>
  C5, as stated, fails: with two membership functions per input and two rules, the two
  rules are the grid cells \<open>(0, 0)\<close> and \<open>(0, 1)\<close>; the cells \<open>(1, 0)\<close> and \<open>(1, 1)\<close> have
  no rule, so the first two inputs are not combined exhaustively.
\<close>

theorem generate_rules_grid_not_exhaustive:
  "\<not> spec_exhaustive_grid grid_model grid_degrees"
  unfolding spec_exhaustive_grid_def grid_rules
  by (simp add: grid_model_fields grid_degrees_def
      cell_strength_def selected_mf_def column_def eval_nat_numeral)

text \<open>
  C5, amended: \<open>generate_rules\<close> walks the grid over the membership functions of the first
  two inputs row by row and stops after \<open>n_rules\<close> cells. Rule \<open>r\<close>, as long as
  \<open>r < n_membership_functions\<^sup>2\<close>, is the cell \<open>(r div n_mf, r mod n_mf)\<close>; its strength
  for a sample is the degree of input 0 in function \<open>r div n_mf\<close>, times the degree of
  input 1 in function \<open>r mod n_mf\<close>, times the degree of every further input in its
  function 0. A rule beyond the grid keeps the strength 1.
\<close>

theorem generate_rules_row_major:
  assumes "0 < n_inputs m" and "length degs = n_inputs m"
    and "\<forall>k<n_inputs m. length (degs ! k) = ns"
  shows "\<exists>rs. generate_rules m degs = Inr rs \<and> length rs = ns \<and>
           (\<forall>s<ns. length (rs ! s) = n_rules m \<and>
              (\<forall>r<n_rules m. rs ! s ! r =
                 (if r < n_membership_functions m * n_membership_functions m
                  then cell_strength degs (n_inputs m)
                         (r div n_membership_functions m) (r mod n_membership_functions m) s
                  else 1)))"
  using assms by (rule generate_rules_strengths)

theorem generate_rules_row_major_witness:
  "\<exists>rs. generate_rules grid_model grid_degrees = Inr rs \<and> length rs = 1 \<and>
      rs ! 0 ! 1 = 1 / 14"
  using generate_rules_row_major [OF grid_shape]
  by (auto simp: grid_rules)

text \<open>
  C6: when \<open>n_rules \<le> n_membership_functions\<close> (as in the default construction, 7 and
  7), the walk over the grid ends inside its first row. Every rule takes function 0 of
  input 0 and of every input from the third on; rule \<open>r\<close> takes function \<open>r\<close> of input 1,
  which is the only place where the rules of one sample differ.
\<close>

theorem generate_rules_first_row_only:
  assumes "0 < n_inputs m" and "length degs = n_inputs m"
    and "\<forall>k<n_inputs m. length (degs ! k) = ns"
    and "n_rules m \<le> n_membership_functions m"
  shows "\<exists>rs. generate_rules m degs = Inr rs \<and>
           (\<forall>s<ns. \<forall>r<n_rules m. rs ! s ! r =
              prod_list (map (\<lambda>k. degs ! k ! s ! (if k = 1 then r else 0)) [0..<n_inputs m]))"
proof -
  from generate_rules_strengths [OF assms(1-3)] obtain rs where
    gen: "generate_rules m degs = Inr rs"
    and val: "\<And>s r. s < ns \<Longrightarrow> r < n_rules m \<Longrightarrow> rs ! s ! r =
        (if r < n_membership_functions m * n_membership_functions m
         then cell_strength degs (n_inputs m)
                (r div n_membership_functions m) (r mod n_membership_functions m) s
         else 1)"
    by blast
  have "rs ! s ! r =
      prod_list (map (\<lambda>k. degs ! k ! s ! (if k = 1 then r else 0)) [0..<n_inputs m])"
    if s: "s < ns" and r: "r < n_rules m" for s r
  proof -
    from r assms(4) have lt: "r < n_membership_functions m" by simp
    have "n_membership_functions m \<le> n_membership_functions m * n_membership_functions m"
      by (cases "n_membership_functions m") simp_all
    with lt have sq: "r < n_membership_functions m * n_membership_functions m"
      by (rule less_le_trans)
    have sel: "selected_mf 0 r k = (if k = 1 then r else 0)" for k
      by (simp add: selected_mf_def)
    show ?thesis
      using val [OF s r] sq lt by (simp add: cell_strength_def sel)
  qed
  with gen show ?thesis by blast
qed

theorem generate_rules_first_row_only_witness:
  "n_rules grid_model \<le> n_membership_functions grid_model \<and>
   (\<exists>rs. generate_rules grid_model grid_degrees = Inr rs \<and> rs ! 0 ! 1 = 1 / 2 * (1 / 7))"
proof -
  have le: "n_rules grid_model \<le> n_membership_functions grid_model"
    by (simp add: grid_model_fields)
  from generate_rules_first_row_only [OF grid_shape le] le show ?thesis
    by (auto simp: grid_rules)
qed

section \<open>Forward inference\<close>

lemma length_foldl_set_column:
  "(\<And>j. length (g j) = length a) \<Longrightarrow>
   length (foldl (\<lambda>a j. set_column a j (g j)) a js) = length a"
  by (induction js arbitrary: a) (simp_all add: length_set_column)

lemma length_input_memberships:
  "length (input_memberships centers widths n_mf xi) = length xi"
  unfolding input_memberships_def
  by (subst length_foldl_set_column) (simp_all add: gaussian_membership_def)


lemma zero_width_iff:
  "zero_width h m \<longleftrightarrow>
     (\<exists>i<n_inputs m. \<exists>j<n_membership_functions m. widths_of h m i ! j = 0)"
  unfolding zero_width_def list_ex_iff by (simp add: Bex_def)


lemma membership_degrees_shape:
  assumes "calculate_membership_degrees h m x = Inr degs"
  shows "length degs = n_inputs m" and "\<forall>k<n_inputs m. length (degs ! k) = length x"
  using assms
  by (auto simp: calculate_membership_degrees_def length_input_memberships column_def
      split: if_splits)

lemma length_calculate_rule_outputs: "length (calculate_rule_outputs m x) = length x"
  unfolding calculate_rule_outputs_def Let_def
  by (subst length_foldl_set_column) simp_all

lemma sigmoid_bounds: "0 < sigmoid z" "sigmoid z < 1"
proof -
  have "0 < exp (- z)" by simp
  then show "0 < sigmoid z" "sigmoid z < 1"
    by (simp_all add: sigmoid_def add_pos_pos)
qed


lemma unit_state_eval:
  "unit_model = \<lparr>n_inputs = 1, n_rules = 1, n_membership_functions = 1,
      membership_params = [(0, 1)], rule_consequents = [[0, 0]],
      training_history = \<lparr>loss = [], val_loss = []\<rparr>,
      best_weights = None, best_val_loss = PosInf, patience_counter = 0\<rparr>"
  "arrays unit_heap 0 = [0]" "arrays unit_heap (Suc 0) = [1/5]" "next_free unit_heap = 2"
  by (simp_all add: unit_model_def unit_heap_def unit_state_def ANFISModel_init_def
      empty_heap_def alloc_def linspace_def initialize_rule_consequents_def)





section \<open>The training step\<close>

lemma forward_pass_InrD:
  assumes "forward_pass h m x = Inr (y, c)"
  shows "0 < n_inputs m" and "length y = length x" and "length (rule_strengths c) = length x"
proof -
  from assms obtain degs where degs: "calculate_membership_degrees h m x = Inr degs"
    by (auto simp: forward_pass_def split: sum.splits)
  from assms degs obtain rs where rs: "generate_rules m degs = Inr rs"
    by (auto simp: forward_pass_def split: sum.splits)
  note shape = membership_degrees_shape [OF degs]
  from rs shape(1) show pos: "0 < n_inputs m"
    by (cases degs) (auto simp: generate_rules_def)
  from generate_rules_strengths [OF pos shape] rs have lrs: "length rs = length x" by auto
  from assms degs rs have c: "rule_strengths c = rs"
    and y: "y = map sigmoid (map (\<lambda>(ws, d). ws / d)
      (zip (map (\<lambda>(s, out). sum_list (map2 (*) s out)) (zip rs (calculate_rule_outputs m x)))
         (rule_strength_sum rs)))"
    by (auto simp: forward_pass_def Let_def)
  from c lrs show "length (rule_strengths c) = length x" by simp
  from y lrs show "length y = length x"
    by (simp add: length_calculate_rule_outputs rule_strength_sum_def)
qed

lemma consequent_step_other:
  "k \<noteq> i \<Longrightarrow> consequent_step lr g rs x rc i ! k = rc ! k"
  by (simp add: consequent_step_def Let_def)

lemma length_consequent_step: "length (consequent_step lr g rs x rc i) = length rc"
  by (simp add: consequent_step_def Let_def)

lemma length_foldl_consequent_step:
  "length (foldl (consequent_step lr g rs x) rc is) = length rc"
  by (induction "is" arbitrary: rc) (simp_all add: length_consequent_step)

lemma consequent_step_same:
  "i < length rc \<Longrightarrow> i < length rc' \<Longrightarrow> rc ! i = rc' ! i \<Longrightarrow>
   consequent_step lr g rs x rc i ! i = consequent_step lr g rs x rc' i ! i"
  by (simp add: consequent_step_def Let_def)

lemma foldl_consequent_step_nth:
  assumes "n \<le> length rc"
  shows "foldl (consequent_step lr g rs x) rc [0..<n] ! i =
           (if i < n then consequent_step lr g rs x rc i ! i else rc ! i)"
  using assms
proof (induction n arbitrary: i)
  case 0
  then show ?case by simp
next
  case (Suc n)
  let ?F = "foldl (consequent_step lr g rs x) rc [0..<n]"
  have len: "length ?F = length rc" by (rule length_foldl_consequent_step)
  from Suc.prems have n: "n < length rc" by simp
  have IH: "?F ! k = (if k < n then consequent_step lr g rs x rc k ! k else rc ! k)" for k
    using Suc.IH [of k] Suc.prems by simp
  have split: "foldl (consequent_step lr g rs x) rc [0..<Suc n] = consequent_step lr g rs x ?F n"
    by simp
  show ?case
  proof (cases "i = n")
    case True
    have "consequent_step lr g rs x ?F n ! n = consequent_step lr g rs x rc n ! n"
      using n len IH [of n] by (intro consequent_step_same) simp_all
    with True show ?thesis unfolding split by simp
  next
    case False
    then show ?thesis unfolding split
      using IH [of i] by (auto simp: consequent_step_other)
  qed
qed

lemma map_zip3_upt:
  assumes "length as = n" and "length bs = n" and "length cs = n"
  shows "map f (zip as (zip bs cs)) = map (\<lambda>k. f (as ! k, bs ! k, cs ! k)) [0..<n]"
  using assms by (auto intro!: nth_equalityI)

lemma map2_upt:
  assumes "length as = n" and "length bs = n"
  shows "map2 f as bs = map (\<lambda>k. f (as ! k) (bs ! k)) [0..<n]"
  using assms by (auto intro!: nth_equalityI)

lemma mean_divide: "mean (map (\<lambda>k. f k / d) ks) = mean (map f ks) / d"
proof -
  have "sum_list (map (\<lambda>k. f k / d) ks) = sum_list (map f ks) / d"
    by (induction ks) (simp_all add: add_divide_distrib)
  then show ?thesis by (simp add: mean_def)
qed

lemmas unit_simps = unit_state_eval widths_of_def centers_of_def zero_width_def
  calculate_membership_degrees_def input_memberships_def gaussian_membership_def
  generate_rules_def rule_cell_def rule_factor_def set_column_def column_def
  calculate_rule_outputs_def dot_def rule_strength_sum_def sigmoid_def forward_pass_def

lemma unit_forward:
  "forward_pass unit_heap unit_model [[0], [0]] =
     Inr ([1/2, 1/2], \<lparr>membership_degrees = [[[1], [1]]], rule_strengths = [[1], [1]],
                        rule_outputs = [[0], [0]]\<rparr>)"
  by (simp add: unit_simps)

lemma unit_consequents_after_step:
  "consequents_after_step unit_heap unit_model [[0], [0]] [1, 1] (1/100) = Inr [[0, 1/400]]"
  unfolding consequents_after_step_def backward_pass_def unit_forward
  by (simp add: unit_state_eval clip_def consequent_step_def membership_step_def
      array_update_def mean_def column_def Let_def)

lemma unit_spec_consequents_after_step:
  "spec_consequents_after_step unit_heap unit_model [[0], [0]] [1, 1] (1/100) = Inr [[0, 1/200]]"
  unfolding spec_consequents_after_step_def unit_forward
  by (simp add: unit_state_eval spec_consequent_update_def mean_def column_def)

text \<open>
  C3, as stated, fails: on a batch of two samples the step moves the bias of the rule by
  \<open>1/400\<close>, half of the \<open>1/200\<close> that the learning rate times the batch mean of
  \<open>(pred - target) * rule_strength\<close> amounts to.
\<close>

theorem backward_pass_not_plain_batch_mean:
  "consequents_after_step unit_heap unit_model [[0], [0]] [1, 1] (1/100) = Inr [[0, 1/400]] \<and>
   spec_consequents_after_step unit_heap unit_model [[0], [0]] [1, 1] (1/100) = Inr [[0, 1/200]] \<and>
   consequents_after_step unit_heap unit_model [[0], [0]] [1, 1] (1/100)
     \<noteq> spec_consequents_after_step unit_heap unit_model [[0], [0]] [1, 1] (1/100)"
  by (simp add: unit_consequents_after_step unit_spec_consequents_after_step)

text \<open>
  C3, amended: one call of \<open>backward_pass\<close> on a batch of \<open>n\<close> samples changes the
  consequents of every rule \<open>i\<close> by minus the learning rate divided by \<open>n\<close>, times the
  batch mean of \<open>(pred - target) * rule_strength_i * [x, 1]\<close>, where \<open>pred\<close> is the
  prediction clipped to \<open>[10\<^sup>-\<^sup>1\<^sup>5, 1 - 10\<^sup>-\<^sup>1\<^sup>5]\<close>: the error term is divided by the batch
  size before the mean is taken.
\<close>

theorem backward_pass_consequent_update:
  assumes fp: "forward_pass h m x = Inr (pred, c)"
    and bp: "backward_pass h m x y_true learning_rate = Inr (h', m', l)"
    and rows: "length (rule_consequents m) = n_rules m"
    and len: "length y_true = length x"
    and i: "i < n_rules m"
  shows "rule_consequents m' ! i =
           spec_consequent_update (learning_rate / real (length x))
             (map (\<lambda>p. clip p (1 / 10 ^ 15) (1 - 1 / 10 ^ 15)) pred) y_true
             (column (rule_strengths c) i) x (rule_consequents m ! i)"
proof -
  note shape = forward_pass_InrD [OF fp]
  define n where "n = length x"
  define cp where "cp = map (\<lambda>p. clip p (1 / 10 ^ 15) (1 - 1 / 10 ^ 15)) pred"
  define g where "g = map2 (\<lambda>p t. (p - t) / real (length y_true)) cp y_true"
  define s where "s = column (rule_strengths c) i"
  have lens: "length cp = n" "length y_true = n" "length s = n" "length g = n"
    using shape len by (simp_all add: n_def cp_def s_def g_def column_def)
  have gk: "g ! k = (cp ! k - y_true ! k) / real n" if "k < n" for k
    using that lens by (simp add: g_def)
  from bp fp have m': "rule_consequents m' =
      foldl (consequent_step learning_rate g (rule_strengths c) x) (rule_consequents m)
        [0..<n_rules m]"
    by (auto simp: backward_pass_def Let_def g_def cp_def split: if_splits sum.splits)
  have "rule_consequents m' ! i =
      consequent_step learning_rate g (rule_strengths c) x (rule_consequents m) i ! i"
    unfolding m' using i rows by (subst foldl_consequent_step_nth) simp_all
  also have "\<dots> = map2 (\<lambda>p g. p - learning_rate * g) (rule_consequents m ! i)
      (map (\<lambda>c. mean (map (\<lambda>(g, s, v). g * s * v) (zip g (zip s (column x c)))))
          [0..<length (hd x)]
       @ [mean (map2 (*) g s)])"
    using i rows by (simp add: consequent_step_def Let_def s_def)
  also have "\<dots> = map2 (\<lambda>p g. p - (learning_rate / real n) * g) (rule_consequents m ! i)
      (map (\<lambda>c. mean (map (\<lambda>k. (cp ! k - y_true ! k) * s ! k * (x ! k ! c)) [0..<n]))
          [0..<length (hd x)]
       @ [mean (map (\<lambda>k. (cp ! k - y_true ! k) * s ! k) [0..<n])])"
  proof -
    have lin: "mean (map (\<lambda>(g, s, v). g * s * v) (zip g (zip s (column x c))))
        = mean (map (\<lambda>k. (cp ! k - y_true ! k) * s ! k * (x ! k ! c)) [0..<n]) / real n" for c
    proof -
      have "map (\<lambda>(g, s, v). g * s * v) (zip g (zip s (column x c)))
          = map (\<lambda>k. (cp ! k - y_true ! k) * s ! k * (x ! k ! c) / real n) [0..<n]"
        using lens by (subst map_zip3_upt [where n = n])
          (auto simp: column_def n_def gk [unfolded n_def])
      then show ?thesis by (simp add: mean_divide)
    qed
    have bias: "mean (map2 (*) g s)
        = mean (map (\<lambda>k. (cp ! k - y_true ! k) * s ! k) [0..<n]) / real n"
    proof -
      have "map2 (*) g s = map (\<lambda>k. (cp ! k - y_true ! k) * s ! k / real n) [0..<n]"
        using lens by (subst map2_upt [where n = n]) (auto simp: gk)
      then show ?thesis by (simp add: mean_divide)
    qed
    show ?thesis
      unfolding lin bias
      by (intro nth_equalityI) (auto simp: nth_append)
  qed
  finally show ?thesis
    by (simp add: spec_consequent_update_def n_def cp_def s_def)
qed


theorem backward_pass_consequent_update_witness:
  "\<exists>h' m' l. backward_pass unit_heap unit_model [[0], [0]] [1, 1] (1/100) = Inr (h', m', l) \<and>
     rule_consequents m' ! 0 =
       spec_consequent_update (1/100 / 2) [1/2, 1/2] [1, 1] [1, 1] [[0], [0]] [0, 0]"
proof -
  from unit_consequents_after_step obtain h' m' l where
    bp: "backward_pass unit_heap unit_model [[0], [0]] [1, 1] (1/100) = Inr (h', m', l)"
    by (auto simp: consequents_after_step_def split: sum.splits)
  have rows: "length (rule_consequents unit_model) = n_rules unit_model"
    and i: "0 < n_rules unit_model"
    by (simp_all add: unit_state_eval)
  have len: "length [1, 1 :: real] = length [[0], [0 :: real]]" by simp
  from backward_pass_consequent_update [OF unit_forward bp rows len i] bp
  show ?thesis by (auto simp: clip_def column_def unit_state_eval)
qed

section \<open>The floor on the widths\<close>














section \<open>Persistence\<close>

lemma index_of_mem: "a \<in> set xs \<Longrightarrow> index_of xs a < length xs \<and> xs ! index_of xs a = a"
  by (induction xs) auto

lemma set_pickled:
  "set (remdups (concat (map (\<lambda>(c, w). [c, w]) mp))) = fst ` set mp \<union> snd ` set mp"
  by (induction mp) auto

lemma forward_pass_cong:
  assumes "n_inputs m' = n_inputs m" and "n_rules m' = n_rules m"
    and "n_membership_functions m' = n_membership_functions m"
    and "rule_consequents m' = rule_consequents m"
    and "\<And>i. i < n_inputs m \<Longrightarrow> centers_of h' m' i = centers_of h m i"
    and "\<And>i. i < n_inputs m \<Longrightarrow> widths_of h' m' i = widths_of h m i"
  shows "forward_pass h' m' x = forward_pass h m x"
proof -
  have zw: "zero_width h' m' = zero_width h m"
    unfolding zero_width_iff assms(1,3) using assms(6) by metis
  have maps: "map (\<lambda>i. input_memberships (centers_of h' m' i) (widths_of h' m' i)
            (n_membership_functions m') (column x i)) [0..<n_inputs m']
      = map (\<lambda>i. input_memberships (centers_of h m i) (widths_of h m i)
            (n_membership_functions m) (column x i)) [0..<n_inputs m]"
    using assms by simp
  have degs: "calculate_membership_degrees h' m' x = calculate_membership_degrees h m x"
    unfolding calculate_membership_degrees_def zw maps ..
  have gen: "generate_rules m' d = generate_rules m d" for d
    unfolding generate_rules_def assms(1-3) ..
  have out: "calculate_rule_outputs m' x = calculate_rule_outputs m x"
    unfolding calculate_rule_outputs_def assms(2,4) ..
  show ?thesis unfolding forward_pass_def degs gen out ..
qed

text \<open>
  C8: for a model whose membership dictionary has an entry for each of its inputs, the
  model that \<open>load_model\<close> builds from what \<open>save_model\<close> wrote predicts, on every batch,
  exactly what the saved model predicts (or fails exactly as it does). The model that
  \<open>load_model\<close> is called on and the store it is loaded into are arbitrary.
\<close>

theorem save_load_round_trip:
  assumes "n_inputs m \<le> length (membership_params m)"
  shows "predict_proba (fst (load_model h0 m0 (save_model h m)))
           (snd (load_model h0 m0 (save_model h m))) x = predict_proba h m x"
proof -
  define mp where "mp = membership_params m"
  define pickled where "pickled = remdups (concat (map (\<lambda>(c, w). [c, w]) mp))"
  define h' where "h' = fst (load_model h0 m0 (save_model h m))"
  define m' where "m' = snd (load_model h0 m0 (save_model h m))"
  have arr: "arrays h' (next_free h0 + index_of pickled a) = arrays h a"
    if "a \<in> set pickled" for a
    using index_of_mem [OF that]
    by (simp add: h'_def load_model_def save_model_def Let_def pickled_def mp_def)
  have mp': "membership_params m' =
      map (\<lambda>(c, w). (next_free h0 + index_of pickled c, next_free h0 + index_of pickled w)) mp"
    by (simp add: m'_def load_model_def save_model_def Let_def pickled_def mp_def)
  have fields: "n_inputs m' = n_inputs m" "n_rules m' = n_rules m"
    "n_membership_functions m' = n_membership_functions m"
    "rule_consequents m' = rule_consequents m"
    by (simp_all add: m'_def load_model_def save_model_def Let_def)
  have mem: "fst (mp ! i) \<in> set pickled \<and> snd (mp ! i) \<in> set pickled"
    if "i < n_inputs m" for i
  proof -
    from that assms have "mp ! i \<in> set mp" by (simp add: mp_def)
    then show ?thesis
      unfolding pickled_def set_pickled by blast
  qed
  have c: "centers_of h' m' i = centers_of h m i" if "i < n_inputs m" for i
    using that assms mem [OF that] arr
    by (simp add: centers_of_def mp' mp_def [symmetric] split_def)
  have w: "widths_of h' m' i = widths_of h m i" if "i < n_inputs m" for i
    using that assms mem [OF that] arr
    by (simp add: widths_of_def mp' mp_def [symmetric] split_def)
  have "forward_pass h' m' x = forward_pass h m x"
    by (rule forward_pass_cong) (simp_all add: fields c w)
  then show ?thesis
    by (simp add: predict_proba_def h'_def m'_def)
qed


theorem save_load_round_trip_witness:
  "n_inputs unit_model \<le> length (membership_params unit_model) \<and>
   predict_proba (fst (load_model unit_heap unit_model (save_model unit_heap unit_model)))
     (snd (load_model unit_heap unit_model (save_model unit_heap unit_model))) [[1]]
   = predict_proba unit_heap unit_model [[1]]"
proof -
  have le: "n_inputs unit_model \<le> length (membership_params unit_model)"
    by (simp add: unit_state_eval)
  from save_load_round_trip [OF le, of unit_heap unit_model unit_heap "[[1]]"] le
  show ?thesis by simp
qed

section \<open>The training loop\<close>

text \<open>
  A model with one input, one rule and one membership function, on batches of one
  sample: the forward pass, the training step and one epoch in closed form.
\<close>

lemma unit_shape_forward:
  assumes m: "n_inputs m = 1" "n_rules m = 1" "n_membership_functions m = 1"
      "membership_params m = [(0, Suc 0)]" "rule_consequents m = [[a, b]]"
    and h: "arrays h 0 = [c]" "arrays h (Suc 0) = [w]" and w: "w \<noteq> 0"
  shows "forward_pass h m [[v]] =
     Inr ([sigmoid (v * a + b)],
          \<lparr>membership_degrees = [[[exp (- 0.5 * ((v - c) / w) ^ 2)]]],
           rule_strengths = [[exp (- 0.5 * ((v - c) / w) ^ 2)]],
           rule_outputs = [[v * a + b]]\<rparr>)"
  using w
  by (simp add: forward_pass_def calculate_membership_degrees_def zero_width_def
      widths_of_def centers_of_def input_memberships_def gaussian_membership_def
      generate_rules_def rule_cell_def rule_factor_def set_column_def column_def
      calculate_rule_outputs_def dot_def rule_strength_sum_def m h)

lemma floor_times_100: "1 \<le> max (x :: real) (1 / 100) * 100"
  by (simp add: max_def)

lemma unit_shape_backward:
  fixes v a b c w t lr :: real
  assumes m: "n_inputs m = 1" "n_rules m = 1" "n_membership_functions m = 1"
      "membership_params m = [(0, Suc 0)]" "rule_consequents m = [[a, b]]"
    and h: "arrays h 0 = [c]" "arrays h (Suc 0) = [w]" and w: "w \<noteq> 0"
  shows "\<exists>h' w' l. let G = (clip (sigmoid (v * a + b)) (1 / 10 ^ 15) (1 - 1 / 10 ^ 15) - t)
                            * exp (- 0.5 * ((v - c) / w) ^ 2)
     in backward_pass h m [[v]] [t] lr =
          Inr (h', m\<lparr>rule_consequents := [[a - lr * (G * v), b - lr * G]]\<rparr>, l) \<and>
        arrays h' 0 = [c - lr * (G * (v - c) / w ^ 2)] \<and>
        arrays h' (Suc 0) = [w'] \<and> 1 / 100 \<le> w'"
  unfolding backward_pass_def unit_shape_forward [OF m h w]
  using w
  by (simp add: Let_def m h consequent_step_def membership_step_def array_update_def
      mean_def column_def floor_times_100)


lemma unit_shape_epoch:
  fixes a b c w lr :: real
  assumes m: "n_inputs m = 1" "n_rules m = 1" "n_membership_functions m = 1"
      "membership_params m = [(0, Suc 0)]" "rule_consequents m = [[a, b]]"
    and h: "arrays h 0 = [c]" "arrays h (Suc 0) = [w]" and w: "1 / 100 \<le> w"
    and G: "G = (clip (sigmoid (1 * a + b)) (1 / 10 ^ 15) (1 - 1 / 10 ^ 15) - 1)
                  * exp (- 0.5 * ((1 - c) / w) ^ 2)"
    and vl: "vl = Finite (- ln (1 - sigmoid (1 * (a - lr * (G * 1)) + (b - lr * G)) + 1 / 10 ^ 15))"
  shows "\<exists>h' m' w'.
      train_epoch [[1]] [1] [[1]] [0] lr 32 [0] (h, m) = Inr (h', m') \<and>
      arrays h' 0 = [c - lr * (G * (1 - c) / w ^ 2)] \<and>
      arrays h' (Suc 0) = [w'] \<and> 1 / 100 \<le> w' \<and>
      n_inputs m' = 1 \<and> n_rules m' = 1 \<and> n_membership_functions m' = 1 \<and>
      membership_params m' = [(0, Suc 0)] \<and>
      rule_consequents m' = [[a - lr * (G * 1), b - lr * G]] \<and>
      val_loss (training_history m') = val_loss (training_history m) @ [vl] \<and>
      best_val_loss m' = (if np_less vl (best_val_loss m) then vl else best_val_loss m) \<and>
      best_weights m' = (if np_less vl (best_val_loss m)
                         then Some ([(0, Suc 0)], [[a - lr * (G * 1), b - lr * G]])
                         else best_weights m) \<and>
      patience_counter m' = (if np_less vl (best_val_loss m) then 0 else patience_counter m + 1)"
proof -
  from w have w0: "w \<noteq> 0" by auto
  from unit_shape_backward [OF m h w0, of 1 1 lr] obtain h' w' l where
    bp: "backward_pass h m [[1]] [1] lr =
          Inr (h', m\<lparr>rule_consequents := [[a - lr * (G * 1), b - lr * G]]\<rparr>, l)"
    and h': "arrays h' 0 = [c - lr * (G * (1 - c) / w ^ 2)]" "arrays h' (Suc 0) = [w']"
    and w': "1 / 100 \<le> w'"
    unfolding G Let_def by blast
  define m1 where "m1 = m\<lparr>rule_consequents := [[a - lr * (G * 1), b - lr * G]]\<rparr>"
  have m1: "n_inputs m1 = 1" "n_rules m1 = 1" "n_membership_functions m1 = 1"
      "membership_params m1 = [(0, Suc 0)]"
      "rule_consequents m1 = [[a - lr * (G * 1), b - lr * G]]"
    by (simp_all add: m1_def m)
  from w' have w'0: "w' \<noteq> 0" by auto
  note fp = unit_shape_forward [OF m1 h' w'0, of 1]
  show ?thesis
    apply (rule exI [of _ h'])
    apply (simp add: train_epoch_def Let_def train_batch_def bp [folded m1_def] fp
        validation_loss_def np_mean_def h' w' vl m1 m1_def [symmetric] split del: if_split)
    apply (insert w')
    apply (simp add: m1_def m vl)
    done
qed

lemma clip_less_one: "clip x (1 / 10 ^ 15) (1 - 1 / 10 ^ 15) < 1"
  by (simp add: clip_def min_def max_def)

lemma clip_pos: "0 < clip x (1 / 10 ^ 15) (1 - 1 / 10 ^ 15)"
  by (simp add: clip_def min_def max_def)

lemma sigmoid_mono: "x \<le> y \<Longrightarrow> sigmoid x \<le> sigmoid y"
proof -
  assume "x \<le> y"
  then have "exp (- y) \<le> exp (- x)" by simp
  then have "1 / (1 + exp (- x)) \<le> 1 / (1 + exp (- y))"
    by (intro divide_left_mono) (simp_all add: add_pos_pos)
  then show ?thesis by (simp add: sigmoid_def)
qed

lemma gradient_factor_bounds:
  fixes z u :: real
  defines "G \<equiv> (clip (sigmoid z) (1 / 10 ^ 15) (1 - 1 / 10 ^ 15) - 1) * exp (- 0.5 * u ^ 2)"
  shows "G < 0" and "- 1 < G"
proof -
  let ?p = "clip (sigmoid z) (1 / 10 ^ 15) (1 - 1 / 10 ^ 15)"
  let ?e = "exp (- 0.5 * u ^ 2)"
  have e: "0 < ?e" "?e \<le> 1" by simp_all
  have p: "?p - 1 < 0" "- 1 < ?p - 1" using clip_less_one [of "sigmoid z"] clip_pos [of "sigmoid z"]
    by simp_all
  show "G < 0" unfolding G_def using e(1) p(1) by (rule mult_neg_pos [rotated])
  have "(1 - ?p) * ?e \<le> (1 - ?p) * 1"
    using e p by (intro mult_left_mono) simp_all
  also have "\<dots> < 1" using p by simp
  finally have "(1 - ?p) * ?e < 1" .
  moreover have "G = - ((1 - ?p) * ?e)" by (simp add: G_def algebra_simps)
  ultimately show "- 1 < G" by simp
qed


lemma unit_model_shape:
  "n_inputs unit_model = 1" "n_rules unit_model = 1" "n_membership_functions unit_model = 1"
  "membership_params unit_model = [(0, Suc 0)]" "rule_consequents unit_model = [[0, 0]]"
  "best_val_loss unit_model = PosInf" "best_weights unit_model = None"
  "patience_counter unit_model = 0" "val_loss (training_history unit_model) = []"
  by (simp_all add: unit_state_eval)

text \<open>
  What putting the best weights back does to the membership parameters, in every call
  of \<open>train\<close> on a model without a snapshot: the dictionary of the snapshot has the
  entries of the model's own dictionary, so the centers and widths after \<open>train\<close> are
  those that the last epoch left in the arrays.
\<close>

lemma backward_pass_membership_params:
  "backward_pass h m x y lr = Inr (h', m', l) \<Longrightarrow>
   membership_params m' = membership_params m \<and> best_weights m' = best_weights m"
  by (auto simp: backward_pass_def Let_def split: sum.splits if_splits)

lemma train_batches_membership_params:
  "foldM (train_batch xs ys lr bs) ks (h, m, t) = Inr (h', m', t') \<Longrightarrow>
   membership_params m' = membership_params m \<and> best_weights m' = best_weights m"
proof (induction ks arbitrary: h m t)
  case Nil
  then show ?case by simp
next
  case (Cons k ks)
  from Cons.prems obtain h1 m1 t1 where
    one: "train_batch xs ys lr bs k (h, m, t) = Inr (h1, m1, t1)"
    and rest: "foldM (train_batch xs ys lr bs) ks (h1, m1, t1) = Inr (h', m', t')"
    by (auto split: sum.splits)
  from one have "membership_params m1 = membership_params m \<and> best_weights m1 = best_weights m"
    by (auto simp: train_batch_def Let_def split: sum.splits
        dest: backward_pass_membership_params)
  with Cons.IH [OF rest] show ?case by simp
qed

lemma train_epoch_snapshot:
  assumes "train_epoch xt yt xv yv lr bs idx (h, m) = Inr (h', m')"
    and "best_weights m = None \<or> (\<exists>rc. best_weights m = Some (membership_params m, rc))"
  shows "membership_params m' = membership_params m \<and>
         (best_weights m' = None \<or> (\<exists>rc. best_weights m' = Some (membership_params m', rc)))"
proof -
  from assms(1) obtain h1 m1 t1 where
    b: "foldM (train_batch (map (\<lambda>k. xt ! k) idx) (map (\<lambda>k. yt ! k) idx) lr bs)
          [0..<(length xt + bs - 1) div bs] (h, m, 0) = Inr (h1, m1, t1)"
    by (auto simp: train_epoch_def Let_def split: sum.splits if_splits prod.splits)
  note keep = train_batches_membership_params [OF b]
  from assms(1) b have "membership_params m' = membership_params m1 \<and>
      (best_weights m' = best_weights m1 \<or>
       (\<exists>rc. best_weights m' = Some (membership_params m1, rc)))"
    by (auto simp: train_epoch_def Let_def split: sum.splits if_splits prod.splits)
  with keep assms(2) show ?thesis by auto
qed

lemma train_epochs_snapshot:
  assumes "train_epochs patience (\<lambda>epoch. train_epoch xt yt xv yv lr bs (perm epoch)) es (h, m)
             = Inr (h', m')"
    and "best_weights m = None \<or> (\<exists>rc. best_weights m = Some (membership_params m, rc))"
  shows "membership_params m' = membership_params m \<and>
         (best_weights m' = None \<or> (\<exists>rc. best_weights m' = Some (membership_params m', rc)))"
  using assms
proof (induction es arbitrary: h m)
  case Nil
  then show ?case by simp
next
  case (Cons e es)
  from Cons.prems(1) obtain h1 m1 where
    one: "train_epoch xt yt xv yv lr bs (perm e) (h, m) = Inr (h1, m1)"
    by (auto split: sum.splits)
  note s1 = train_epoch_snapshot [OF one Cons.prems(2)]
  show ?case
  proof (cases "patience \<le> patience_counter m1")
    case True
    with Cons.prems(1) one s1 show ?thesis by auto
  next
    case False
    with Cons.prems(1) one have
      "train_epochs patience (\<lambda>epoch. train_epoch xt yt xv yv lr bs (perm epoch)) es (h1, m1)
         = Inr (h', m')" by simp
    from Cons.IH [OF this] s1 show ?thesis by auto
  qed
qed

lemma train_restores_dictionary_only:
  assumes "train h m xt yt xv yv epochs lr patience bs perm = Inr (h', m')"
    and "best_weights m = None"
  shows "\<exists>m_last. train_epochs patience (\<lambda>epoch. train_epoch xt yt xv yv lr bs (perm epoch))
                     [0..<epochs] (h, m) = Inr (h', m_last) \<and>
           membership_params m' = membership_params m_last \<and>
           (\<forall>i. centers_of h' m' i = centers_of h' m_last i \<and>
                widths_of h' m' i = widths_of h' m_last i)"
proof -
  from assms(1) obtain m_last where
    run: "train_epochs patience (\<lambda>epoch. train_epoch xt yt xv yv lr bs (perm epoch))
            [0..<epochs] (h, m) = Inr (h', m_last)"
    and m': "m' = restore_best_weights m_last"
    by (auto simp: train_def split: if_splits sum.splits)
  from train_epochs_snapshot [OF run] assms(2)
  have "best_weights m_last = None \<or>
      (\<exists>rc. best_weights m_last = Some (membership_params m_last, rc))" by auto
  then have "membership_params m' = membership_params m_last"
    by (auto simp: m' restore_best_weights_def)
  with run show ?thesis by (auto simp: centers_of_def widths_of_def)
qed

text \<open>
  C2 on a run of the code. The model is the freshly constructed one-input model, the
  training set is the sample \<open>x = 1\<close> with target 1, the validation set the same sample
  with target 0, the learning rate \<open>0.01\<close>, the patience 1 and the epoch limit 3. The
  first epoch records the best validation loss and takes the snapshot; the second epoch
  does not improve on it, and the loop stops early. After \<open>train\<close> the rule consequents
  are those of the snapshot, but the membership centers are those of the second epoch
  and differ from what they were when the snapshot was taken: the snapshot holds the
  dictionary of the membership parameters, whose entries are the very arrays that the
  training step goes on updating in place.
\<close>

theorem train_keeps_membership_drift:
  "\<exists>h1 m1 h2 m2.
     train_epoch [[1]] [1] [[1]] [0] (1/100) 32 [0] (unit_heap, unit_model) = Inr (h1, m1) \<and>
     train_epoch [[1]] [1] [[1]] [0] (1/100) 32 [0] (h1, m1) = Inr (h2, m2) \<and>
     best_val_loss m1 = last (val_loss (training_history m1)) \<and>
     best_weights m1 = Some (membership_params m1, rule_consequents m1) \<and>
     \<not> np_less (last (val_loss (training_history m2))) (best_val_loss m1) \<and>
     train unit_heap unit_model [[1]] [1] [[1]] [0] 3 (1/100) 1 32 (\<lambda>epoch. [0])
       = Inr (h2, restore_best_weights m2) \<and>
     rule_consequents (restore_best_weights m2) = rule_consequents m1 \<and>
     centers_of h2 (restore_best_weights m2) 0 = centers_of h2 m2 0 \<and>
     centers_of h2 (restore_best_weights m2) 0 \<noteq> centers_of h1 m1 0"
proof -
  define lr :: real where "lr = 1 / 100"
  define G0 :: real where "G0 = (clip (sigmoid (1 * 0 + 0)) (1 / 10 ^ 15) (1 - 1 / 10 ^ 15) - 1)
      * exp (- 0.5 * ((1 - 0) / (1 / 5)) ^ 2)"
  define a1 where "a1 = 0 - lr * (G0 * 1)"
  define b1 where "b1 = 0 - lr * G0"
  define c1 where "c1 = 0 - lr * (G0 * (1 - 0) / (1 / 5) ^ 2)"
  define vl0 where "vl0 = Finite (- ln (1 - sigmoid (1 * a1 + b1) + 1 / 10 ^ 15))"
  have G0: "G0 < 0" "- 1 < G0" unfolding G0_def by (rule gradient_factor_bounds)+
  have "c1 = - G0 / 4" by (simp add: c1_def lr_def power2_eq_square)
  with G0 have c1: "c1 < 1" by simp
  have w0: "(1 / 100 :: real) \<le> 1 / 5" by simp
  from unit_shape_epoch [OF unit_model_shape(1-5) unit_state_eval(2,3) w0 G0_def,
      of vl0 lr, unfolded a1_def [symmetric] b1_def [symmetric] c1_def [symmetric], OF vl0_def]
  obtain h1 m1 w1 where
    e0: "train_epoch [[1]] [1] [[1]] [0] lr 32 [0] (unit_heap, unit_model) = Inr (h1, m1)"
    and h1: "arrays h1 0 = [c1]" "arrays h1 (Suc 0) = [w1]" and w1: "1 / 100 \<le> w1"
    and m1: "n_inputs m1 = 1" "n_rules m1 = 1" "n_membership_functions m1 = 1"
      "membership_params m1 = [(0, Suc 0)]" "rule_consequents m1 = [[a1, b1]]"
    and hist1: "val_loss (training_history m1) = [vl0]"
    and best1: "best_val_loss m1 = vl0" "best_weights m1 = Some ([(0, Suc 0)], [[a1, b1]])"
      "patience_counter m1 = 0"
    by (auto simp: unit_model_shape vl0_def)
  define G1 where "G1 = (clip (sigmoid (1 * a1 + b1)) (1 / 10 ^ 15) (1 - 1 / 10 ^ 15) - 1)
      * exp (- 0.5 * ((1 - c1) / w1) ^ 2)"
  define a2 where "a2 = a1 - lr * (G1 * 1)"
  define b2 where "b2 = b1 - lr * G1"
  define c2 where "c2 = c1 - lr * (G1 * (1 - c1) / w1 ^ 2)"
  define vl1 where "vl1 = Finite (- ln (1 - sigmoid (1 * a2 + b2) + 1 / 10 ^ 15))"
  have G1: "G1 < 0" unfolding G1_def by (rule gradient_factor_bounds)
  have worse: "\<not> np_less vl1 vl0"
  proof -
    have "1 * a1 + b1 \<le> 1 * a2 + b2"
      using G1 by (simp add: a2_def b2_def lr_def)
    then have s: "sigmoid (1 * a1 + b1) \<le> sigmoid (1 * a2 + b2)" by (rule sigmoid_mono)
    have "0 < 1 - sigmoid (1 * a2 + b2) + 1 / 10 ^ 15"
      using sigmoid_bounds(2) [of "1 * a2 + b2"] by simp
    with s have "ln (1 - sigmoid (1 * a2 + b2) + 1 / 10 ^ 15)
        \<le> ln (1 - sigmoid (1 * a1 + b1) + 1 / 10 ^ 15)"
      by (subst ln_le_cancel_iff) simp_all
    then show ?thesis by (simp add: vl0_def vl1_def)
  qed
  from unit_shape_epoch [OF m1 h1 w1 G1_def,
      of vl1 lr, unfolded a2_def [symmetric] b2_def [symmetric] c2_def [symmetric], OF vl1_def]
  obtain h2 m2 where
    e1: "train_epoch [[1]] [1] [[1]] [0] lr 32 [0] (h1, m1) = Inr (h2, m2)"
    and h2: "arrays h2 0 = [c2]"
    and m2: "membership_params m2 = [(0, Suc 0)]" "rule_consequents m2 = [[a2, b2]]"
    and hist2: "val_loss (training_history m2) = [vl0, vl1]"
    and best2: "best_weights m2 = Some ([(0, Suc 0)], [[a1, b1]])" "patience_counter m2 = 1"
    using worse by (auto simp: best1 hist1)
  have drift: "c2 \<noteq> c1"
  proof -
    have "0 < w1 ^ 2" using w1 by simp
    moreover have "0 < 1 - c1" using c1 by simp
    ultimately have "G1 * (1 - c1) / w1 ^ 2 < 0"
      using G1 by (simp add: divide_neg_pos mult_neg_pos)
    then have "lr * (G1 * (1 - c1) / w1 ^ 2) < 0"
      unfolding lr_def by (simp only: mult_pos_neg zero_less_divide_1_iff zero_less_numeral)
    then show ?thesis unfolding c2_def by linarith
  qed
  have run: "train unit_heap unit_model [[1]] [1] [[1]] [0] 3 lr 1 32 (\<lambda>epoch. [0])
      = Inr (h2, restore_best_weights m2)"
  proof -
    have epochs: "[0..<3] = [0, 1, 2 :: nat]" by (simp add: eval_nat_numeral)
    show ?thesis
      unfolding train_def epochs by (simp add: e0 e1 best1 best2)
  qed
  have restored: "rule_consequents (restore_best_weights m2) = [[a1, b1]]"
    "membership_params (restore_best_weights m2) = [(0, Suc 0)]"
    by (simp_all add: restore_best_weights_def best2)
  show ?thesis
    apply (rule exI [of _ h1], rule exI [of _ m1], rule exI [of _ h2], rule exI [of _ m2])
    using e0 e1 run drift worse
    by (simp add: lr_def best1 hist1 hist2 m1 m2 restored centers_of_def h1 h2)
qed


section \<open>The one-vs-all ensemble\<close>

text \<open>
  A row with a non-zero sum is normalised to finite values that sum to 1, and the
  normalisation in \<open>predict_with_anfis\<close> yields a sum of 1 for every non-empty list of
  non-negative values, by its uniform fallback.
\<close>

lemma normalized_row_sums_to_one:
  assumes "sum_list row \<noteq> 0"
  shows "map (\<lambda>p. np_divide p (sum_list row)) row = map (\<lambda>p. Finite (p / sum_list row)) row"
    and "sum_list (map (\<lambda>p. p / sum_list row) row) = 1"
proof -
  show "map (\<lambda>p. np_divide p (sum_list row)) row = map (\<lambda>p. Finite (p / sum_list row)) row"
    using assms by (simp add: np_divide_def)
  have "sum_list (map (\<lambda>p. p / s) xs) = sum_list xs / s" for s :: real and xs
    by (induction xs) (simp_all add: add_divide_distrib)
  with assms show "sum_list (map (\<lambda>p. p / sum_list row) row) = 1" by simp
qed

lemma predict_with_anfis_normalize_sums_to_one:
  assumes "probabilities \<noteq> []" and "\<forall>p\<in>set probabilities. 0 \<le> p"
  shows "sum_list (predict_with_anfis_normalize probabilities) = 1"
proof (cases "sum_list probabilities > 0")
  case True
  then have "sum_list probabilities \<noteq> 0" by simp
  from normalized_row_sums_to_one(2) [OF this] True show ?thesis
    by (simp add: predict_with_anfis_normalize_def)
next
  case False
  have "sum_list (map (\<lambda>v. c) xs) = real (length xs) * c" for c :: real and xs :: "real list"
    by (induction xs) (simp_all add: algebra_simps)
  with False assms(1) show ?thesis
    by (simp add: predict_with_anfis_normalize_def Let_def)
qed

text \<open>
  C1 on a run of the code: two models that both answer \<open>0\<close> for the one sample of the
  batch. \<open>predict_multi_class\<close> divides the row by its sum, zero, and returns a row of
  NaN, not the uniform distribution \<open>[1/2, 1/2]\<close> that \<open>predict_with_anfis\<close> returns for
  the same values.
\<close>

theorem predict_multi_class_zero_sum:
  "predict_multi_class saturated_proba [0, 0] [[1]] = Inr ([0], [[NaN, NaN]]) \<and>
   predict_with_anfis_normalize [0, 0] = [1 / 2, 1 / 2]"
  by (simp add: predict_multi_class_def saturated_proba_def set_column_def np_divide_def
      np_argmax_def predict_with_anfis_normalize_def eval_nat_numeral)


section \<open>The active-learning controller\<close>

lemma mapM_failure:
  "a \<in> set xs \<Longrightarrow> f a = Inl e0 \<Longrightarrow> \<exists>e. mapM f xs = Inl e"
  by (induction xs) (auto split: sum.splits)

lemma generate_targeted_failure:
  assumes "(d, i) \<in> set (requested_samples types n)"
    and "generate_single_image sys d i = Inl e0"
  shows "\<exists>e. generate_targeted_synthetic_samples sys types n = Inl e"
  unfolding generate_targeted_synthetic_samples_def
  by (rule mapM_failure [OF assms(1)]) (simp add: assms(2))

lemma unit_forward_zero:
  "forward_pass (fst unit_state) (snd unit_state) [[0]] =
     Inr ([1/2], \<lparr>membership_degrees = [[[1]]], rule_strengths = [[1]],
                   rule_outputs = [[0]]\<rparr>)"
  unfolding unit_heap_def [symmetric] unit_model_def [symmetric]
  by (simp add: unit_simps)

lemma one_sample_prepare:
  "prepare_dataset [[(''hue'', 0)]] [''healthy''] healthy_only = Inr ([[0]], [0])"
  by (simp add: prepare_dataset_def healthy_only_def)

lemma mildew_evaluate: "evaluate unit_state [[0]] [0] = Inr 0"
  by (simp add: evaluate_def predict_def predict_proba_def unit_forward_zero f1_score_def)

lemma mildew_uncertain:
  "identify_uncertain_samples mildew_failing_system unit_state [[0]] = Inr [0]"
  by (simp add: identify_uncertain_samples_def predict_proba_def unit_forward_zero
      mildew_failing_system_def)

lemma mildew_analyze:
  "analyze_uncertain_samples unit_state [[0]] [0] [0] = Inr [''sunscald'', ''mildew'', ''insect'']"
  by (simp add: analyze_uncertain_samples_def predict_proba_def unit_forward_zero)

lemma mildew_requested:
  "requested_samples [''sunscald'', ''mildew'', ''insect''] 3
     = [(''sunscald'', 0), (''mildew'', 0), (''insect'', 0)]"
  by (simp add: requested_samples_def samples_needed_def)

text \<open>
  C4, as stated, fails. In the first iteration the model is uncertain about the
  validation sample, the defect types \<open>sunscald\<close>, \<open>mildew\<close> and \<open>insect\<close> are
  requested, and the generator fails for \<open>mildew\<close> although it succeeds for the other
  two: the failure leaves \<open>active_learning_loop\<close>, no sample is added to the pool and no
  further training takes place.
\<close>

theorem generation_failure_propagates:
  "active_learning_loop mildew_failing_system [[(''hue'', 0)]] [''healthy''] [[0]] [0] healthy_only
     = Inl GeneratorError \<and>
   generate_single_image mildew_failing_system ''sunscald'' 0 = Inr [(''hue'', 0)] \<and>
   generate_single_image mildew_failing_system ''insect'' 0 = Inr [(''hue'', 0)]"
proof -
  have its: "[0..<max_iterations mildew_failing_system] = [0, 1, 2]"
    by (simp add: mildew_failing_system_def eval_nat_numeral)
  have tr: "trainer mildew_failing_system k x y = Inr unit_state" for k x y
    by (simp add: mildew_failing_system_def)
  have gen: "generate_targeted_synthetic_samples mildew_failing_system
      [''sunscald'', ''mildew'', ''insect''] (samples_per_iteration mildew_failing_system)
      = Inl GeneratorError"
    by (simp add: generate_targeted_synthetic_samples_def mildew_requested
        mildew_failing_system_def)
  have "active_learning_iteration mildew_failing_system [[0]] [0] healthy_only 0
      (initial_al_state [[(''hue'', 0)]] [''healthy'']) = Inl GeneratorError"
    by (simp add: active_learning_iteration_def initial_al_state_def one_sample_prepare tr
        mildew_evaluate mildew_uncertain mildew_analyze gen Let_def)
  then have "active_learning_loop mildew_failing_system [[(''hue'', 0)]] [''healthy'']
      [[0]] [0] healthy_only = Inl GeneratorError"
    unfolding active_learning_loop_def its by simp
  then show ?thesis
    by (simp add: mildew_failing_system_def)
qed


text \<open>
  C4, amended: a failure of the generator for any one of the requested samples is not
  handled. \<open>generate_targeted_synthetic_samples\<close> fails with it and returns no sample,
  not even those of the defect types generated before, and the loop, in whatever
  iteration and state this happens, fails with the same failure instead of going on.
\<close>

theorem generation_failure_aborts_loop:
  assumes "prepare_dataset (current_features st) (current_labels st) defect_to_binary
             = Inr (x_train, y_train)"
    and "trainer sys iteration x_train y_train = Inr model"
    and "evaluate model x_val y_val = Inr performance"
    and "identify_uncertain_samples sys model x_val = Inr uncertain_indices"
    and "uncertain_indices \<noteq> []"
    and "analyze_uncertain_samples model x_val y_val uncertain_indices = Inr types"
    and "(d, i) \<in> set (requested_samples types (samples_per_iteration sys))"
    and "generate_single_image sys d i = Inl e0"
  shows "\<exists>e. generate_targeted_synthetic_samples sys types (samples_per_iteration sys) = Inl e \<and>
           active_learning_iterations sys x_val y_val defect_to_binary (iteration # rest) st
             = Inl e"
proof -
  from generate_targeted_failure [OF assms(7,8)] obtain e where
    e: "generate_targeted_synthetic_samples sys types (samples_per_iteration sys) = Inl e"
    by blast
  have "active_learning_iteration sys x_val y_val defect_to_binary iteration st = Inl e"
    using assms(1-6) e by (simp add: active_learning_iteration_def Let_def)
  with e show ?thesis by simp
qed

theorem generation_failure_aborts_loop_witness:
  "\<exists>e. generate_targeted_synthetic_samples mildew_failing_system
          [''sunscald'', ''mildew'', ''insect''] 3 = Inl e \<and>
        active_learning_iterations mildew_failing_system [[0]] [0] healthy_only [0, 1, 2]
          (initial_al_state [[(''hue'', 0)]] [''healthy'']) = Inl e"
proof -
  let ?st = "initial_al_state [[(''hue'', 0)]] [''healthy'']"
  have p: "prepare_dataset (current_features ?st) (current_labels ?st) healthy_only
      = Inr ([[0]], [0])"
    by (simp add: initial_al_state_def one_sample_prepare)
  have t: "trainer mildew_failing_system 0 [[0]] [0] = Inr unit_state"
    by (simp add: mildew_failing_system_def)
  have ne: "[0 :: nat] \<noteq> []" by simp
  have r: "(''mildew'', 0) \<in> set (requested_samples [''sunscald'', ''mildew'', ''insect'']
      (samples_per_iteration mildew_failing_system))"
    by (simp add: mildew_failing_system_def mildew_requested)
  have g: "generate_single_image mildew_failing_system ''mildew'' 0 = Inl GeneratorError"
    by (simp add: mildew_failing_system_def)
  have n: "samples_per_iteration mildew_failing_system = 3"
    by (simp add: mildew_failing_system_def)
  from generation_failure_aborts_loop
    [OF p t mildew_evaluate mildew_uncertain ne mildew_analyze r g, of "[1, 2]"]
  show ?thesis by (simp add: n)
qed

lemma loop_stops_in_first_iteration:
  assumes "prepare_dataset initial_features initial_labels defect_to_binary = Inr (x_train, y_train)"
    and "trainer sys 0 x_train y_train = Inr model"
    and "evaluate model x_val y_val = Inr performance"
    and "identify_uncertain_samples sys model x_val = Inr []"
    and "0 < max_iterations sys"
  shows "active_learning_loop sys initial_features initial_labels x_val y_val defect_to_binary
     = Inr \<lparr>current_features = initial_features, current_labels = initial_labels,
            best_model = (if performance > 0 then Some model else None),
            best_performance = (if performance > 0 then performance else 0),
            al_training_history = [],
            model_performance = [\<lparr>pe_iteration = 0, pe_performance = performance,
                                   pe_n_samples = length initial_features\<rparr>]\<rparr>"
proof -
  from assms(5) have its: "[0..<max_iterations sys] = 0 # [1..<max_iterations sys]"
    by (simp add: upt_conv_Cons)
  have "active_learning_iteration sys x_val y_val defect_to_binary 0
      (initial_al_state initial_features initial_labels)
     = Inr (True, \<lparr>current_features = initial_features, current_labels = initial_labels,
            best_model = (if performance > 0 then Some model else None),
            best_performance = (if performance > 0 then performance else 0),
            al_training_history = [],
            model_performance = [\<lparr>pe_iteration = 0, pe_performance = performance,
                                   pe_n_samples = length initial_features\<rparr>]\<rparr>)"
    using assms(1-4) by (simp add: active_learning_iteration_def initial_al_state_def Let_def)
  then show ?thesis
    unfolding active_learning_loop_def its by simp
qed

lemma confident_state_eval:
  "snd confident_state = \<lparr>n_inputs = 1, n_rules = 1, n_membership_functions = 1,
      membership_params = [(0, 1)], rule_consequents = [[0, - 10]],
      training_history = \<lparr>loss = [], val_loss = []\<rparr>,
      best_weights = None, best_val_loss = PosInf, patience_counter = 0\<rparr>"
  "arrays (fst confident_state) 0 = [0]" "arrays (fst confident_state) (Suc 0) = [1/5]"
  by (simp_all add: confident_state_def ANFISModel_init_def
      empty_heap_def alloc_def linspace_def initialize_rule_consequents_def)

lemma confident_forward:
  "forward_pass (fst confident_state) (snd confident_state) [[0]] =
     Inr ([sigmoid (- 10)], \<lparr>membership_degrees = [[[1]]], rule_strengths = [[1]],
                              rule_outputs = [[- 10]]\<rparr>)"
  by (simp add: confident_state_eval widths_of_def centers_of_def zero_width_def
      calculate_membership_degrees_def input_memberships_def gaussian_membership_def
      generate_rules_def rule_cell_def rule_factor_def set_column_def column_def
      calculate_rule_outputs_def dot_def rule_strength_sum_def forward_pass_def)

lemma sigmoid_minus_ten: "sigmoid (- 10) < 3 / 20"
proof -
  have "1 + (10 :: real) \<le> exp 10" by (rule exp_ge_add_one_self)
  then have "20 / 3 < 1 + exp (10 :: real)" by simp
  then have "1 / (1 + exp (10 :: real)) < 1 / (20 / 3)"
    by (intro divide_strict_left_mono) (simp_all add: add_pos_pos)
  then show ?thesis by (simp add: sigmoid_def)
qed

lemma confident_evaluate: "evaluate confident_state [[0]] [0] = Inr 0"
  using sigmoid_minus_ten
  by (simp add: evaluate_def predict_def predict_proba_def confident_forward f1_score_def)

lemma confident_uncertain:
  "identify_uncertain_samples confident_system confident_state [[0]] = Inr []"
  using sigmoid_minus_ten
  by (simp add: identify_uncertain_samples_def predict_proba_def confident_forward
      confident_system_def)

text \<open>
  C9 on a run of the code, with \<open>confidence_threshold = 0.7\<close> and \<open>max_iterations = 3\<close>.
  The model of the first iteration is confident about the one validation sample, a
  negative that it predicts as negative, so no uncertain sample remains and the loop
  ends after that iteration, with one entry in the performance record. The F1 score of
  the model is \<open>0\<close>, which is not greater than the initial best performance \<open>0.0\<close>: the
  best model returned is \<open>None\<close>, not the model of the first iteration.
\<close>

theorem loop_returns_no_model_for_zero_f1:
  "active_learning_loop confident_system [[(''hue'', 0)]] [''healthy''] [[0]] [0] healthy_only
     = Inr \<lparr>current_features = [[(''hue'', 0)]], current_labels = [''healthy''],
            best_model = None, best_performance = 0, al_training_history = [],
            model_performance = [\<lparr>pe_iteration = 0, pe_performance = 0, pe_n_samples = 1\<rparr>]\<rparr>"
proof -
  have t: "trainer confident_system 0 [[0]] [0] = Inr confident_state"
    and pos: "0 < max_iterations confident_system"
    by (simp_all add: confident_system_def)
  from loop_stops_in_first_iteration
    [OF one_sample_prepare t confident_evaluate confident_uncertain pos]
  show ?thesis by simp
qed



text \<open>Every iteration records one performance entry, so the loop runs at most
  \<open>max_iterations\<close> iterations.\<close>

lemma iteration_appends_one_entry:
  "active_learning_iteration sys x_val y_val d2b k st = Inr (stop, st') \<Longrightarrow>
   length (model_performance st') = Suc (length (model_performance st))"
  by (auto simp: active_learning_iteration_def Let_def split: sum.splits if_splits prod.splits)

lemma loop_runs_at_most_max_iterations:
  "active_learning_iterations sys x_val y_val d2b its st = Inr st' \<Longrightarrow>
   length (model_performance st') \<le> length (model_performance st) + length its"
proof (induction its arbitrary: st)
  case Nil
  then show ?case by simp
next
  case (Cons k its)
  from Cons.prems obtain stop st1 where
    it: "active_learning_iteration sys x_val y_val d2b k st = Inr (stop, st1)"
    by (auto split: sum.splits)
  note one = iteration_appends_one_entry [OF it]
  show ?case
  proof (cases stop)
    case True
    with Cons.prems it one show ?thesis by simp
  next
    case False
    with Cons.prems it have "active_learning_iterations sys x_val y_val d2b its st1 = Inr st'"
      by simp
    from Cons.IH [OF this] one show ?thesis by simp
  qed
qed


end
